theory Spec2Isabelle
  imports Main
begin

section \<open>JavaScript string operations\<close>

text \<open>
  Strings are modelled as lists of 8-bit characters, the code units below 256 (host names,
  domain patterns, paths, shell words). The functions below are the \<^verbatim>\<open>String.prototype\<close>
  methods the sources call, on that model; they are stated for lists of any type, so that
  \<open>includes_str\<close> also tells whether the lines of a rule stand, one after the other, in a list
  of lines.
\<close>

fun startsWith :: "'a list \<Rightarrow> 'a list \<Rightarrow> bool" where
  "startsWith s [] = True"
| "startsWith [] (p # ps) = False"
| "startsWith (c # cs) (p # ps) = (c = p \<and> startsWith cs ps)"

definition endsWith :: "'a list \<Rightarrow> 'a list \<Rightarrow> bool" where
  "endsWith s p = startsWith (rev s) (rev p)"

fun includes_str :: "'a list \<Rightarrow> 'a list \<Rightarrow> bool" where
  "includes_str [] p = (p = [])"
| "includes_str (c # cs) p = (startsWith (c # cs) p \<or> includes_str cs p)"

text \<open>\<^verbatim>\<open>s.split(sep)\<close> for a one-character separator: never empty, \<^verbatim>\<open>''.split('.')\<close> is \<^verbatim>\<open>['']\<close>.\<close>

fun split_char :: "char \<Rightarrow> string \<Rightarrow> string list" where
  "split_char sep [] = [[]]"
| "split_char sep (c # cs) =
     (if c = sep then [] # split_char sep cs
      else (case split_char sep cs of
              [] \<Rightarrow> [[c]]
            | w # ws \<Rightarrow> (c # w) # ws))"

text \<open>
  \<^verbatim>\<open>toLowerCase\<close> on code units below 256: the letters A..Z are mapped to a..z and the
  upper-case letters U+00C0..U+00DE (without the sign U+00D7) to U+00E0..U+00FE; every other
  character is kept.
\<close>

definition upper_letters :: string where
  "upper_letters =
     ''ABCDEFGHIJKLMNOPQRSTUVWXYZ'' @
     [CHR 0xC0, CHR 0xC1, CHR 0xC2, CHR 0xC3, CHR 0xC4, CHR 0xC5, CHR 0xC6, CHR 0xC7,
      CHR 0xC8, CHR 0xC9, CHR 0xCA, CHR 0xCB, CHR 0xCC, CHR 0xCD, CHR 0xCE, CHR 0xCF,
      CHR 0xD0, CHR 0xD1, CHR 0xD2, CHR 0xD3, CHR 0xD4, CHR 0xD5, CHR 0xD6,
      CHR 0xD8, CHR 0xD9, CHR 0xDA, CHR 0xDB, CHR 0xDC, CHR 0xDD, CHR 0xDE]"

definition lower_letters :: string where
  "lower_letters =
     ''abcdefghijklmnopqrstuvwxyz'' @
     [CHR 0xE0, CHR 0xE1, CHR 0xE2, CHR 0xE3, CHR 0xE4, CHR 0xE5, CHR 0xE6, CHR 0xE7,
      CHR 0xE8, CHR 0xE9, CHR 0xEA, CHR 0xEB, CHR 0xEC, CHR 0xED, CHR 0xEE, CHR 0xEF,
      CHR 0xF0, CHR 0xF1, CHR 0xF2, CHR 0xF3, CHR 0xF4, CHR 0xF5, CHR 0xF6,
      CHR 0xF8, CHR 0xF9, CHR 0xFA, CHR 0xFB, CHR 0xFC, CHR 0xFD, CHR 0xFE]"

definition lower_char :: "char \<Rightarrow> char" where
  "lower_char c =
     (case map_of (zip upper_letters lower_letters) c of
        None \<Rightarrow> c
      | Some d \<Rightarrow> d)"

definition toLowerCase :: "string \<Rightarrow> string" where
  "toLowerCase s = map lower_char s"

section \<open>Domain patterns: validation (sandbox-config)\<close>

text \<open>
  \<^verbatim>\<open>
  const validateWildcardDomain = (domain: string): boolean => {
    if (!domain.includes('.') || domain.startsWith('.') || domain.endsWith('.')) {
      return false;
    }
    const parts = domain.split('.');
    return parts.length >= 2 && parts.every((p) => p.length > 0);
  };
  \<close>
\<close>

definition validateWildcardDomain :: "string \<Rightarrow> bool" where
  "validateWildcardDomain domain =
     (if \<not> includes_str domain ''.'' \<or> startsWith domain ''.'' \<or> endsWith domain ''.''
      then False
      else (let parts = split_char (CHR ''.'') domain
            in length parts \<ge> 2 \<and> list_all (\<lambda>p. length p > 0) parts))"

text \<open>
  \<^verbatim>\<open>
  const validateDomainPattern = (val: string): boolean => {
    if (val.includes('://') || val.includes('/') || val.includes(':')) return false;
    if (val === 'localhost') return true;
    if (val.startsWith('*.')) {
      const domain = val.slice(2);
      return validateWildcardDomain(domain);
    }
    if (val.includes('*')) return false;
    return val.includes('.') && !val.startsWith('.') && !val.endsWith('.');
  };
  \<close>
\<close>

definition validateDomainPattern :: "string \<Rightarrow> bool" where
  "validateDomainPattern val =
     (if includes_str val ''://'' \<or> includes_str val ''/'' \<or> includes_str val '':'' then False
      else if val = ''localhost'' then True
      else if startsWith val ''*.'' then validateWildcardDomain (drop 2 val)
      else if includes_str val ''*'' then False
      else includes_str val ''.'' \<and> \<not> startsWith val ''.'' \<and> \<not> endsWith val ''.'')"

section \<open>Network filter (network-filter)\<close>

text \<open>
  \<^verbatim>\<open>
  export const matchesDomainPattern = (hostname: string, pattern: string): boolean => {
    if (pattern.startsWith('*.')) {
      const baseDomain = pattern.substring(2);
      return hostname.toLowerCase().endsWith('.' + baseDomain.toLowerCase());
    }
    return hostname.toLowerCase() === pattern.toLowerCase();
  };
  \<close>
\<close>

definition matchesDomainPattern :: "string \<Rightarrow> string \<Rightarrow> bool" where
  "matchesDomainPattern hostname pattern =
     (if startsWith pattern ''*.''
      then (let baseDomain = drop 2 pattern
            in endsWith (toLowerCase hostname) (''.'' @ toLowerCase baseDomain))
      else toLowerCase hostname = toLowerCase pattern)"

text \<open>The part of \<^verbatim>\<open>SandboxRuntimeConfig\<close> the filter reads: \<^verbatim>\<open>config.network\<close>.\<close>

record NetworkConfig =
  allowedDomains :: "string list"
  deniedDomains :: "string list"

text \<open>The two \<^verbatim>\<open>for ... of\<close> loops with an early \<^verbatim>\<open>return true\<close>.\<close>

fun anyMatch :: "string \<Rightarrow> string list \<Rightarrow> bool" where
  "anyMatch host [] = False"
| "anyMatch host (d # ds) = (if matchesDomainPattern host d then True else anyMatch host ds)"

definition isDomainDenied :: "string \<Rightarrow> NetworkConfig \<Rightarrow> bool" where
  "isDomainDenied host config = anyMatch host (deniedDomains config)"

definition isDomainAllowed :: "string \<Rightarrow> NetworkConfig \<Rightarrow> bool" where
  "isDomainAllowed host config = anyMatch host (allowedDomains config)"

text \<open>
  The ask callback is a function of \<^verbatim>\<open>{host, port}\<close> whose promise either resolves to a
  boolean or rejects: \<open>None\<close> is the rejection (the \<^verbatim>\<open>catch\<close> branch of
  \<^verbatim>\<open>askUserPermission\<close>).
\<close>

type_synonym SandboxAskCallback = "string \<Rightarrow> nat \<Rightarrow> bool option"

definition askUserPermission :: "string \<Rightarrow> nat \<Rightarrow> SandboxAskCallback \<Rightarrow> bool" where
  "askUserPermission host port sandboxAskCallback =
     (case sandboxAskCallback host port of
        Some userAllowed \<Rightarrow> userAllowed
      | None \<Rightarrow> False)"

definition filterNetworkRequest ::
  "nat \<Rightarrow> string \<Rightarrow> NetworkConfig option \<Rightarrow> SandboxAskCallback option \<Rightarrow> bool" where
  "filterNetworkRequest port host config sandboxAskCallback =
     (case config of
        None \<Rightarrow> False
      | Some cfg \<Rightarrow>
          if isDomainDenied host cfg then False
          else if isDomainAllowed host cfg then True
          else (case sandboxAskCallback of
                  None \<Rightarrow> False
                | Some cb \<Rightarrow> askUserPermission host port cb))"

section \<open>Config merge of the wrapper (sandbox-wrapper)\<close>

text \<open>
  The runtime view of the configuration objects: a property that may be \<^verbatim>\<open>undefined\<close> is
  an \<open>option\<close>. \<^verbatim>\<open>customConfig\<close> is a \<^verbatim>\<open>Partial<SandboxRuntimeConfig>\<close>; the manager's
  \<^verbatim>\<open>state.config\<close> is a \<^verbatim>\<open>SandboxRuntimeConfig | undefined\<close>. Only the fields that
  \<^verbatim>\<open>buildConfigs\<close> and \<^verbatim>\<open>wrapWithSandbox\<close> read are kept.
\<close>

record NetworkFields =
  nf_allowedDomains :: "string list option"

record FilesystemFields =
  ff_denyRead :: "string list option"
  ff_allowWrite :: "string list option"
  ff_denyWrite :: "string list option"

record PartialConfig =
  pc_network :: "NetworkFields option"
  pc_filesystem :: "FilesystemFields option"
  pc_allowPty :: "bool option"

record RuntimeConfig =
  rc_network :: NetworkFields
  rc_filesystem :: FilesystemFields
  rc_allowPty :: "bool option"

record LinuxBridge =
  httpSocketPath :: string
  socksSocketPath :: string

record NetworkContext =
  httpProxyPort :: nat
  socksProxyPort :: nat
  linuxBridge :: "LinuxBridge option"

record ManagerState =
  config :: "RuntimeConfig option"
  managerContext :: "NetworkContext option"

text \<open>\<^verbatim>\<open>a ?? b\<close>: the left operand unless it is undefined.\<close>

fun nullish :: "'a option \<Rightarrow> 'a option \<Rightarrow> 'a option" where
  "nullish (Some a) b = Some a"
| "nullish None b = b"

fun nullish_default :: "'a option \<Rightarrow> 'a \<Rightarrow> 'a" where
  "nullish_default (Some a) d = a"
| "nullish_default None d = d"

text \<open>\<^verbatim>\<open>customConfig?.network?.allowedDomains\<close> and \<^verbatim>\<open>state.config?.network?.allowedDomains\<close>.\<close>

definition customAllowedDomains :: "PartialConfig option \<Rightarrow> string list option" where
  "customAllowedDomains customConfig =
     Option.bind customConfig (\<lambda>c. Option.bind (pc_network c) nf_allowedDomains)"

definition stateAllowedDomains :: "ManagerState \<Rightarrow> string list option" where
  "stateAllowedDomains state = Option.bind (config state) (\<lambda>c. nf_allowedDomains (rc_network c))"

definition customFilesystem ::
  "(FilesystemFields \<Rightarrow> string list option) \<Rightarrow> PartialConfig option \<Rightarrow> string list option" where
  "customFilesystem field customConfig =
     Option.bind customConfig (\<lambda>c. Option.bind (pc_filesystem c) field)"

definition stateFilesystem ::
  "(FilesystemFields \<Rightarrow> string list option) \<Rightarrow> ManagerState \<Rightarrow> string list option" where
  "stateFilesystem field state = Option.bind (config state) (\<lambda>c. field (rc_filesystem c))"

record FsWriteRestrictionConfig =
  allowOnly :: "string list"
  denyWithinAllow :: "string list"

record FsReadRestrictionConfig =
  denyOnly :: "string list"

record BuiltConfigs =
  writeConfig :: FsWriteRestrictionConfig
  readConfig :: FsReadRestrictionConfig
  needsNetworkRestriction :: bool
  needsNetworkProxy :: bool

text \<open>
  \<^verbatim>\<open>
  const hasNetworkConfig =
    customConfig?.network?.allowedDomains !== undefined ||
    state.config?.network?.allowedDomains !== undefined;
  const allowedDomains =
    customConfig?.network?.allowedDomains ?? state.config?.network.allowedDomains ?? [];
  const needsNetworkRestriction = hasNetworkConfig;
  const needsNetworkProxy = allowedDomains.length > 0;
  \<close>
  \<open>defaultWritePaths\<close> is the value of \<^verbatim>\<open>getDefaultWritePaths()\<close>, which depends on the home
  directory.
\<close>

definition effectiveAllowedDomains :: "ManagerState \<Rightarrow> PartialConfig option \<Rightarrow> string list" where
  "effectiveAllowedDomains state customConfig =
     nullish_default (nullish (customAllowedDomains customConfig) (stateAllowedDomains state)) []"

definition buildConfigs :: "string list \<Rightarrow> ManagerState \<Rightarrow> PartialConfig option \<Rightarrow> BuiltConfigs" where
  "buildConfigs defaultWritePaths state customConfig =
     (let userAllowWrite =
            nullish_default (nullish (customFilesystem ff_allowWrite customConfig)
                                     (stateFilesystem ff_allowWrite state)) [];
          writeConfig =
            \<lparr>allowOnly = defaultWritePaths @ userAllowWrite,
             denyWithinAllow =
               nullish_default (nullish (customFilesystem ff_denyWrite customConfig)
                                        (stateFilesystem ff_denyWrite state)) []\<rparr>;
          readConfig =
            \<lparr>denyOnly =
               nullish_default (nullish (customFilesystem ff_denyRead customConfig)
                                        (stateFilesystem ff_denyRead state)) []\<rparr>;
          hasNetworkConfig =
            (customAllowedDomains customConfig \<noteq> None \<or> stateAllowedDomains state \<noteq> None);
          allowedDomains = effectiveAllowedDomains state customConfig
      in \<lparr>writeConfig = writeConfig,
          readConfig = readConfig,
          needsNetworkRestriction = hasNetworkConfig,
          needsNetworkProxy = (length allowedDomains > 0)\<rparr>)"

text \<open>
  The network part of what \<^verbatim>\<open>wrapWithSandbox\<close> does after the merge: whether it awaits
  \<^verbatim>\<open>waitForNetworkInitialization()\<close>, and the proxy ports and bridge sockets that
  \<^verbatim>\<open>getMacOSOptions\<close> and \<^verbatim>\<open>getLinuxOptions\<close> hand to the platform wrapper
  (\<^verbatim>\<open>needsNetworkProxy ? getProxyPort() : undefined\<close>, and so on).
\<close>

record WrapNetworkOptions =
  awaitsInitialization :: bool
  opt_needsNetworkRestriction :: bool
  opt_httpProxyPort :: "nat option"
  opt_socksProxyPort :: "nat option"
  opt_httpSocketPath :: "string option"
  opt_socksSocketPath :: "string option"

datatype platform = MacOS | Linux

definition wrapNetworkOptions ::
  "platform \<Rightarrow> string list \<Rightarrow> ManagerState \<Rightarrow> PartialConfig option \<Rightarrow> WrapNetworkOptions" where
  "wrapNetworkOptions pf defaultWritePaths state customConfig =
     (let built = buildConfigs defaultWritePaths state customConfig;
          proxy = needsNetworkProxy built;
          ctx = managerContext state
      in \<lparr>awaitsInitialization = proxy,
          opt_needsNetworkRestriction = needsNetworkRestriction built,
          opt_httpProxyPort = (if proxy then map_option httpProxyPort ctx else None),
          opt_socksProxyPort = (if proxy then map_option socksProxyPort ctx else None),
          opt_httpSocketPath =
            (case pf of
               MacOS \<Rightarrow> None
             | Linux \<Rightarrow>
                 if proxy
                 then Option.bind ctx (\<lambda>c. map_option httpSocketPath (linuxBridge c))
                 else None),
          opt_socksSocketPath =
            (case pf of
               MacOS \<Rightarrow> None
             | Linux \<Rightarrow>
                 if proxy
                 then Option.bind ctx (\<lambda>c. map_option socksSocketPath (linuxBridge c))
                 else None)\<rparr>)"

section \<open>Example inputs\<close>

definition example_policy :: NetworkConfig where
  "example_policy =
     \<lparr>allowedDomains = [''example.com'', ''*.corp.test''], deniedDomains = [''*.secret.corp.test'']\<rparr>"

definition manager_with_domains :: ManagerState where
  "manager_with_domains =
     \<lparr>config = Some \<lparr>rc_network = \<lparr>nf_allowedDomains = Some [''example.com'']\<rparr>,
                      rc_filesystem = \<lparr>ff_denyRead = Some [], ff_allowWrite = Some [],
                                       ff_denyWrite = Some []\<rparr>,
                      rc_allowPty = None\<rparr>,
      managerContext = Some \<lparr>httpProxyPort = 40001, socksProxyPort = 40002,
                              linuxBridge = None\<rparr>\<rparr>"

definition custom_block_all :: "PartialConfig option" where
  "custom_block_all =
     Some \<lparr>pc_network = Some \<lparr>nf_allowedDomains = Some []\<rparr>, pc_filesystem = None,
           pc_allowPty = None\<rparr>"

definition custom_no_network :: "PartialConfig option" where
  "custom_no_network = Some \<lparr>pc_network = None, pc_filesystem = None, pc_allowPty = None\<rparr>"

section \<open>HTTP proxy (http-proxy)\<close>

definition CRLF :: string where
  "CRLF = [CHR 0x0D, CHR 0x0A]"

text \<open>
  \<^verbatim>\<open>parseInt(s, 10)\<close>: leading white space is skipped, one sign is read, then the longest
  run of decimal digits; without a digit the result is \<^verbatim>\<open>NaN\<close>, here \<open>None\<close>. (Exact for
  values below \<open>2^53\<close>.) The white space of JavaScript below 256, which is also the class
  \<^verbatim>\<open>\s\<close> of its regular expressions: space, tab, line feed, vertical tab, form feed,
  carriage return and the no-break space U+00A0.
\<close>

definition is_js_space :: "char \<Rightarrow> bool" where
  "is_js_space c =
     (c \<in> set [CHR '' '', CHR 0x09, CHR 0x0A, CHR 0x0B, CHR 0x0C, CHR 0x0D, CHR 0xA0])"

definition is_digit :: "char \<Rightarrow> bool" where
  "is_digit c = (c \<in> set ''0123456789'')"

definition digit_value :: "char \<Rightarrow> int" where
  "digit_value c =
     (case map_of (zip ''0123456789'' [0, 1, 2, 3, 4, 5, 6, 7, 8, 9]) c of
        None \<Rightarrow> 0
      | Some v \<Rightarrow> v)"

fun digits_value :: "int \<Rightarrow> string \<Rightarrow> int" where
  "digits_value acc [] = acc"
| "digits_value acc (c # cs) = digits_value (10 * acc + digit_value c) cs"

definition parseInt10 :: "string \<Rightarrow> int option" where
  "parseInt10 s =
     (let s1 = dropWhile is_js_space s;
          neg = (case s1 of [] \<Rightarrow> False | c # _ \<Rightarrow> c = CHR ''-'');
          s2 = (case s1 of [] \<Rightarrow> [] | c # r \<Rightarrow> if c = CHR ''-'' \<or> c = CHR ''+'' then r else s1);
          ds = takeWhile is_digit s2
      in if ds = [] then None
         else Some (if neg then - digits_value 0 ds else digits_value 0 ds))"

text \<open>
  What the proxy does with the client of a CONNECT request: it ends the socket with a raw
  response, or opens the tunnel with \<^verbatim>\<open>connect(port, hostname, ...)\<close>.
\<close>

datatype connect_outcome =
  SocketEnd string
| Tunnel int string

text \<open>
  The filter of \<^verbatim>\<open>HttpProxyServerOptions\<close>, \<^verbatim>\<open>filter(port, host, socket)\<close>: a promise of a
  boolean; \<open>None\<close> is a rejected promise (or a throwing filter).
\<close>

type_synonym proxy_filter = "int \<Rightarrow> string \<Rightarrow> bool option"

text \<open>
  \<^verbatim>\<open>
  const [hostname, portStr] = req.url!.split(':');
  const port = portStr === undefined ? undefined : parseInt(portStr, 10);
  if (!hostname || !port) {
    socket.end('HTTP/1.1 400 Bad Request\r\n\r\n');
    return;
  }
  const allowed = await options.filter(port, hostname, socket);
  if (!allowed) {
    socket.end(
      'HTTP/1.1 403 Forbidden\r\n' +
        'Content-Type: text/plain\r\n' +
        'X-Proxy-Error: blocked-by-allowlist\r\n' +
        '\r\n' +
        'Connection blocked by network allowlist'
    );
    return;
  }
  const serverSocket = connect(port, hostname, ...);
  \<close>
  The result is \<open>None\<close> when an exception leaves the handler: the awaited filter rejects,
  or \<^verbatim>\<open>connect\<close> throws on a port that is not in the range 0 to 65535.
\<close>

definition connectTarget :: "string \<Rightarrow> (string \<times> int) option" where
  "connectTarget url =
     (case split_char (CHR '':'') url of
        [] \<Rightarrow> None
      | hostname # rest \<Rightarrow>
          (case rest of
             [] \<Rightarrow> None
           | portStr # _ \<Rightarrow>
               (case parseInt10 portStr of
                  None \<Rightarrow> None
                | Some port \<Rightarrow>
                    if hostname = [] \<or> port = 0 then None else Some (hostname, port))))"

definition handleConnectRequest :: "string \<Rightarrow> proxy_filter \<Rightarrow> connect_outcome option" where
  "handleConnectRequest url flt =
     (case connectTarget url of
        None \<Rightarrow> Some (SocketEnd (''HTTP/1.1 400 Bad Request'' @ CRLF @ CRLF))
      | Some (hostname, port) \<Rightarrow>
          (case flt port hostname of
             None \<Rightarrow> None
           | Some allowed \<Rightarrow>
               if \<not> allowed
               then Some (SocketEnd
                      (''HTTP/1.1 403 Forbidden'' @ CRLF @
                       ''Content-Type: text/plain'' @ CRLF @
                       ''X-Proxy-Error: blocked-by-allowlist'' @ CRLF @
                       CRLF @
                       ''Connection blocked by network allowlist''))
               else if 0 \<le> port \<and> port \<le> 65535 then Some (Tunnel port hostname)
               else None))"

text \<open>
  The \<^verbatim>\<open>'connect'\<close> listener of \<^verbatim>\<open>createHttpProxyServer\<close>: an exception of the handler is
  answered with a 500.
\<close>

definition onConnect :: "string \<Rightarrow> proxy_filter \<Rightarrow> connect_outcome" where
  "onConnect url flt =
     (case handleConnectRequest url flt of
        Some outcome \<Rightarrow> outcome
      | None \<Rightarrow> SocketEnd (''HTTP/1.1 500 Internal Server Error'' @ CRLF @ CRLF))"

text \<open>
  A plain request. \<^verbatim>\<open>new URL(req.url)\<close> is the platform's parser: its result is the input,
  \<open>None\<close> when it throws. The port of a URL object is empty or a string of digits, so that
  \<^verbatim>\<open>parseInt\<close> gives a number; for any other string the model has no outcome.
  \<^verbatim>\<open>res.writeHead(status, headers); res.end(body)\<close> is the outcome \<open>Respond\<close>; otherwise the
  request is forwarded.
\<close>

record parsed_url =
  url_hostname :: string
  url_port :: string
  url_protocol :: string

datatype request_outcome =
  Respond nat "(string \<times> string) list" string
| Forward bool string int

definition requestPort :: "parsed_url \<Rightarrow> int option" where
  "requestPort url =
     (if url_port url \<noteq> [] then parseInt10 (url_port url)
      else if url_protocol url = ''https:'' then Some 443
      else Some 80)"

definition handleHttpRequest :: "parsed_url option \<Rightarrow> proxy_filter \<Rightarrow> request_outcome option" where
  "handleHttpRequest parsed flt =
     (case parsed of
        None \<Rightarrow> None
      | Some url \<Rightarrow>
          (case requestPort url of
             None \<Rightarrow> None
           | Some port \<Rightarrow>
               (case flt port (url_hostname url) of
                  None \<Rightarrow> None
                | Some allowed \<Rightarrow>
                    if \<not> allowed
                    then Some (Respond 403
                           [(''Content-Type'', ''text/plain''),
                            (''X-Proxy-Error'', ''blocked-by-allowlist'')]
                           ''Connection blocked by network allowlist'')
                    else Some (Forward (url_protocol url = ''https:'') (url_hostname url) port))))"

definition onRequest :: "parsed_url option \<Rightarrow> proxy_filter \<Rightarrow> request_outcome" where
  "onRequest parsed flt =
     (case handleHttpRequest parsed flt of
        Some outcome \<Rightarrow> outcome
      | None \<Rightarrow> Respond 500 [(''Content-Type'', ''text/plain'')] ''Internal Server Error'')"

text \<open>An HTTP/1.1 message: status line, header lines, an empty line, the body.\<close>

definition http_message :: "string \<Rightarrow> string list \<Rightarrow> string \<Rightarrow> string" where
  "http_message status_line header_lines body =
     status_line @ CRLF @ concat (map (\<lambda>h. h @ CRLF) header_lines) @ CRLF @ body"


definition allowlist_filter :: proxy_filter where
  "allowlist_filter port host =
     Some (filterNetworkRequest (nat port) host
             (Some \<lparr>allowedDomains = [''example.com''], deniedDomains = []\<rparr>) None)"

section \<open>Command tags (command-utils, profile-utils, macos-sandbox-monitor)\<close>

text \<open>
  The command is a JavaScript string: a sequence of UTF-16 code units, here natural numbers
  below \<open>2^16\<close>. \<^verbatim>\<open>Buffer.from(s)\<close> is the UTF-8 encoding of the string, a sequence of
  bytes: a surrogate pair is one code point of four bytes, a surrogate without its partner
  is encoded as U+FFFD.
\<close>

type_synonym utf16 = "nat list"
type_synonym bytes = "nat list"

fun utf8_encode :: "utf16 \<Rightarrow> bytes" where
  "utf8_encode [] = []"
| "utf8_encode (u # us) =
     (if u < 0x80 then u # utf8_encode us
      else if u < 0x800 then (0xC0 + u div 64) # (0x80 + u mod 64) # utf8_encode us
      else if 0xD800 \<le> u \<and> u < 0xDC00 then
        (case us of
           [] \<Rightarrow> [0xEF, 0xBF, 0xBD]
         | v # vs \<Rightarrow>
             if 0xDC00 \<le> v \<and> v < 0xE000
             then (let cp = 0x10000 + (u - 0xD800) * 0x400 + (v - 0xDC00)
                   in (0xF0 + cp div 262144) # (0x80 + (cp div 4096) mod 64)
                      # (0x80 + (cp div 64) mod 64) # (0x80 + cp mod 64) # utf8_encode vs)
             else 0xEF # 0xBF # 0xBD # utf8_encode us)
      else if 0xDC00 \<le> u \<and> u < 0xE000 then 0xEF # 0xBF # 0xBD # utf8_encode us
      else (0xE0 + u div 4096) # (0x80 + (u div 64) mod 64) # (0x80 + u mod 64) # utf8_encode us)"

text \<open>\<^verbatim>\<open>buf.toString('base64')\<close>: the standard alphabet, padded with \<^verbatim>\<open>=\<close>.\<close>

definition base64_alphabet :: string where
  "base64_alphabet = ''ABCDEFGHIJKLMNOPQRSTUVWXYZabcdefghijklmnopqrstuvwxyz0123456789+/''"

definition base64_char :: "nat \<Rightarrow> char" where
  "base64_char n = base64_alphabet ! (n mod 64)"

fun base64 :: "bytes \<Rightarrow> string" where
  "base64 [] = []"
| "base64 [a] = [base64_char (a div 4), base64_char ((a mod 4) * 16), CHR ''='', CHR ''='']"
| "base64 [a, b] =
     [base64_char (a div 4), base64_char ((a mod 4) * 16 + b div 16),
      base64_char ((b mod 16) * 4), CHR ''='']"
| "base64 (a # b # c # rest) =
     base64_char (a div 4) # base64_char ((a mod 4) * 16 + b div 16)
     # base64_char ((b mod 16) * 4 + c div 64) # base64_char (c mod 64) # base64 rest"

text \<open>
  \<^verbatim>\<open>
  export const encodeSandboxedCommand = (command: string): string => {
    const truncatedCommand = command.slice(0, 100);
    return Buffer.from(truncatedCommand).toString('base64');
  };
  \<close>
\<close>

definition encodeSandboxedCommand :: "utf16 \<Rightarrow> string" where
  "encodeSandboxedCommand command =
     (let truncatedCommand = take 100 command
      in base64 (utf8_encode truncatedCommand))"

text \<open>
  \<^verbatim>\<open>sessionSuffix = `_${Math.random().toString(36).slice(2, 11)}_VSBX`\<close>, with the random
  digits as the parameter, and
  \<^verbatim>\<open>generateLogTag = `CMD64_${encodedCommand}_END_${sessionSuffix}`\<close>.
\<close>

definition sessionSuffix :: "string \<Rightarrow> string" where
  "sessionSuffix random_digits = ''_'' @ random_digits @ ''_VSBX''"

definition generateLogTag :: "string \<Rightarrow> utf16 \<Rightarrow> string" where
  "generateLogTag suffix command =
     (let encodedCommand = encodeSandboxedCommand command
      in ''CMD64_'' @ encodedCommand @ ''_END_'' @ suffix)"

text \<open>
  The log monitor reads the encoded command back with \<^verbatim>\<open>/CMD64_(.+?)_END/.exec(commandLine)\<close>:
  the leftmost \<^verbatim>\<open>CMD64_\<close> that is followed by at least one character other than a line
  terminator and then \<^verbatim>\<open>_END\<close>, the group being as short as possible.
\<close>

definition is_line_terminator :: "char \<Rightarrow> bool" where
  "is_line_terminator c = (c = CHR 0x0A \<or> c = CHR 0x0D)"

fun lazy_group_END :: "string \<Rightarrow> string \<Rightarrow> string option" where
  "lazy_group_END acc [] = None"
| "lazy_group_END acc (c # cs) =
     (if is_line_terminator c then None
      else if startsWith cs ''_END'' then Some (rev (c # acc))
      else lazy_group_END (c # acc) cs)"

fun exec_CMD64 :: "string \<Rightarrow> string option" where
  "exec_CMD64 [] = None"
| "exec_CMD64 (c # cs) =
     (if startsWith (c # cs) ''CMD64_''
      then (case lazy_group_END [] (drop 6 (c # cs)) of
              Some g \<Rightarrow> Some g
            | None \<Rightarrow> exec_CMD64 cs)
      else exec_CMD64 cs)"

text \<open>
  \<^verbatim>\<open>extractCommand(commandLine).encodedCommand\<close>, the \<^verbatim>\<open>encodedCommand\<close> of the violation
  event.
\<close>

definition extractEncodedCommand :: "string option \<Rightarrow> string option" where
  "extractEncodedCommand commandLine =
     (case commandLine of
        None \<Rightarrow> None
      | Some line \<Rightarrow> if line = [] then None else exec_CMD64 line)"

definition ascii :: "string \<Rightarrow> utf16" where
  "ascii s = map of_char s"

section \<open>Glob patterns to regular expressions (profile-utils)\<close>

text \<open>
  \<^verbatim>\<open>s.replace(/lit/g, rep)\<close> for a literal, non-empty pattern: the matches are taken from left
  to right and do not overlap.
\<close>

function replaceAll :: "string \<Rightarrow> string \<Rightarrow> string \<Rightarrow> string" where
  "replaceAll pat rep [] = []"
| "replaceAll pat rep (c # cs) =
     (if pat \<noteq> [] \<and> startsWith (c # cs) pat
      then rep @ replaceAll pat rep (drop (length pat) (c # cs))
      else c # replaceAll pat rep cs)"
  by pat_completeness auto
termination
  by (relation "measure (\<lambda>(pat, rep, s). length s)") auto

text \<open>\<^verbatim>\<open>.replace(/[.^$+{}()|\\]/g, '\\$&')\<close>: a backslash before each of these characters.\<close>

definition backslash :: char where
  "backslash = CHR 0x5C"

definition is_regex_meta :: "char \<Rightarrow> bool" where
  "is_regex_meta c = (c \<in> set ''.^$+{}()|'' \<or> c = backslash)"

fun escapeRegexMeta :: "string \<Rightarrow> string" where
  "escapeRegexMeta [] = []"
| "escapeRegexMeta (c # cs) =
     (if is_regex_meta c then backslash # c # escapeRegexMeta cs else c # escapeRegexMeta cs)"

text \<open>
  \<^verbatim>\<open>.replace(/\[([^\]]*?)$/g, '\\[$1')\<close>: the leftmost \<^verbatim>\<open>[\<close> with no \<^verbatim>\<open>]\<close> after it, up to
  the end of the string, gets a backslash.
\<close>

fun escapeUnclosedBracket :: "string \<Rightarrow> string" where
  "escapeUnclosedBracket [] = []"
| "escapeUnclosedBracket (c # cs) =
     (if c = CHR ''['' \<and> CHR '']'' \<notin> set cs then backslash # c # cs
      else c # escapeUnclosedBracket cs)"

text \<open>
  \<^verbatim>\<open>
  export const globToRegex = (globPattern: string): string => {
    return (
      '^' +
      globPattern
        .replace(/[.^$+{}()|\\]/g, '\\$&')
        .replace(/\[([^\]]*?)$/g, '\\[$1')
        .replace(/\*\*\//g, '__GLOBSTAR_SLASH__')
        .replace(/\*\*/g, '__GLOBSTAR__')
        .replace(/\*/g, '[^/]*')
        .replace(/\?/g, '[^/]')
        .replace(/__GLOBSTAR_SLASH__/g, '(.*/)?')
        .replace(/__GLOBSTAR__/g, '.*') +
      '$'
    );
  };
  \<close>
\<close>

definition globToRegex :: "string \<Rightarrow> string" where
  "globToRegex globPattern =
     ''^'' @
     (replaceAll ''__GLOBSTAR__'' ''.*''
       (replaceAll ''__GLOBSTAR_SLASH__'' ''(.*/)?''
         (replaceAll ''?'' ''[^/]''
           (replaceAll ''*'' ''[^/]*''
             (replaceAll ''**'' ''__GLOBSTAR__''
               (replaceAll ''**/'' ''__GLOBSTAR_SLASH__''
                 (escapeUnclosedBracket
                   (escapeRegexMeta globPattern)))))))) @
     ''$''"

text \<open>
  The translation in the words of the specification, as one pass over the pattern:
  \<^verbatim>\<open>**/\<close> becomes \<^verbatim>\<open>(.*/)?\<close>, \<^verbatim>\<open>**\<close> becomes \<^verbatim>\<open>.*\<close>, \<^verbatim>\<open>*\<close> becomes \<^verbatim>\<open>[^/]*\<close>, \<^verbatim>\<open>?\<close>
  becomes \<^verbatim>\<open>[^/]\<close>, a regex metacharacter of the other parts gets a backslash, and every
  other character is kept.
\<close>

fun spec_glob_body :: "string \<Rightarrow> string" where
  "spec_glob_body [] = []"
| "spec_glob_body (c # cs) =
     (if startsWith (c # cs) ''**/'' then ''(.*/)?'' @ spec_glob_body (drop 2 cs)
      else if startsWith (c # cs) ''**'' then ''.*'' @ spec_glob_body (drop 1 cs)
      else if c = CHR ''*'' then ''[^/]*'' @ spec_glob_body cs
      else if c = CHR ''?'' then ''[^/]'' @ spec_glob_body cs
      else if is_regex_meta c then backslash # c # spec_glob_body cs
      else c # spec_glob_body cs)"

definition spec_globToRegex :: "string \<Rightarrow> string" where
  "spec_globToRegex globPattern = ''^'' @ spec_glob_body globPattern @ ''$''"

text \<open>
  The stages of the translation as one pass each: \<open>glob_stage a b c d\<close> writes \<open>a\<close> for
  \<^verbatim>\<open>**/\<close>, \<open>b\<close> for \<^verbatim>\<open>**\<close>, \<open>c\<close> for \<^verbatim>\<open>*\<close> and \<open>d\<close> for \<^verbatim>\<open>?\<close>, and escapes the regex
  metacharacters.
\<close>

fun glob_stage :: "string \<Rightarrow> string \<Rightarrow> string \<Rightarrow> string \<Rightarrow> string \<Rightarrow> string" where
  "glob_stage a b c d [] = []"
| "glob_stage a b c d (x # xs) =
     (if startsWith (x # xs) ''**/'' then a @ glob_stage a b c d (drop 2 xs)
      else if startsWith (x # xs) ''**'' then b @ glob_stage a b c d (drop 1 xs)
      else if x = CHR ''*'' then c @ glob_stage a b c d xs
      else if x = CHR ''?'' then d @ glob_stage a b c d xs
      else if is_regex_meta x then backslash # x # glob_stage a b c d xs
      else x # glob_stage a b c d xs)"

text \<open>A pattern is plain when it has no underscore and no three stars in a row.\<close>

definition plain_glob :: "string \<Rightarrow> bool" where
  "plain_glob p = (CHR ''_'' \<notin> set p \<and> \<not> includes_str p ''***'')"

text \<open>Every \<^verbatim>\<open>[\<close> of the pattern has a \<^verbatim>\<open>]\<close> after it.\<close>

fun brackets_closed :: "string \<Rightarrow> bool" where
  "brackets_closed [] = True"
| "brackets_closed (c # cs) = ((if c = CHR ''['' then CHR '']'' \<in> set cs else True) \<and> brackets_closed cs)"

section \<open>Paths (node:path, POSIX)\<close>

text \<open>
  The functions of \<^verbatim>\<open>node:path\<close> that the sources call, for POSIX paths. \<^verbatim>\<open>normalizeString\<close>
  drops empty and \<^verbatim>\<open>.\<close> segments and resolves \<^verbatim>\<open>..\<close> against the segment before it; above
  the root a \<^verbatim>\<open>..\<close> is dropped (absolute path) or kept (relative path).
\<close>

fun join_with :: "string \<Rightarrow> string list \<Rightarrow> string" where
  "join_with sep [] = []"
| "join_with sep [x] = x"
| "join_with sep (x # y # ys) = x @ sep @ join_with sep (y # ys)"

text \<open>The segments seen so far are kept in reverse order.\<close>

fun normalizeSegments :: "bool \<Rightarrow> string list \<Rightarrow> string list \<Rightarrow> string list" where
  "normalizeSegments allowAboveRoot res [] = rev res"
| "normalizeSegments allowAboveRoot res (seg # segs) =
     (if seg = [] \<or> seg = ''.'' then normalizeSegments allowAboveRoot res segs
      else if seg = ''..'' then
        (case res of
           [] \<Rightarrow> normalizeSegments allowAboveRoot (if allowAboveRoot then [''..''] else []) segs
         | lastSeg # below \<Rightarrow>
             if lastSeg = ''..'' then normalizeSegments allowAboveRoot (''..'' # res) segs
             else normalizeSegments allowAboveRoot below segs)
      else normalizeSegments allowAboveRoot (seg # res) segs)"

definition normalizeString :: "string \<Rightarrow> bool \<Rightarrow> string" where
  "normalizeString path allowAboveRoot =
     join_with ''/'' (normalizeSegments allowAboveRoot [] (split_char (CHR ''/'') path))"

definition isAbsolute :: "string \<Rightarrow> bool" where
  "isAbsolute path = startsWith path ''/''"

definition normalize :: "string \<Rightarrow> string" where
  "normalize path =
     (if path = [] then ''.''
      else (let trailingSeparator = endsWith path ''/'';
                p = normalizeString path (\<not> isAbsolute path)
            in if p = [] then
                 (if isAbsolute path then ''/'' else if trailingSeparator then ''./'' else ''.'')
               else (let p' = (if trailingSeparator then p @ ''/'' else p)
                     in if isAbsolute path then ''/'' @ p' else p')))"

text \<open>
  \<^verbatim>\<open>path.resolve(cwd, p)\<close> as \<^verbatim>\<open>getNormalizedPath\<close> calls it, with the absolute working
  directory \<^verbatim>\<open>process.cwd()\<close> as first and a relative path as second argument.
\<close>

definition resolve2 :: "string \<Rightarrow> string \<Rightarrow> string" where
  "resolve2 cwd p =
     (let resolvedPath = (if p = [] then cwd @ ''/'' else cwd @ ''/'' @ p @ ''/'')
      in ''/'' @ normalizeString resolvedPath False)"

text \<open>
  \<^verbatim>\<open>path.dirname\<close>: trailing slashes are skipped, then the path is cut before the last slash
  that is not at index 0; without one the result is \<^verbatim>\<open>/\<close> or \<^verbatim>\<open>.\<close>.
\<close>

definition dirname :: "string \<Rightarrow> string" where
  "dirname path =
     (case path of
        [] \<Rightarrow> ''.''
      | c # body \<Rightarrow>
          (let hasRoot = (c = CHR ''/'');
               afterName = dropWhile (\<lambda>x. x \<noteq> CHR ''/'')
                             (dropWhile (\<lambda>x. x = CHR ''/'') (rev body));
               endIdx = length afterName
           in if endIdx = 0 then (if hasRoot then ''/'' else ''.'')
              else if hasRoot \<and> endIdx = 1 then ''//''
              else take endIdx path))"

section \<open>Path normalization and the symlink boundary (path-utils)\<close>

definition is_glob_char :: "char \<Rightarrow> bool" where
  "is_glob_char c = (c \<in> set ''*?[]'')"

definition containsGlobChars :: "string \<Rightarrow> bool" where
  "containsGlobChars pathPattern = list_ex is_glob_char pathPattern"

text \<open>\<^verbatim>\<open>normalizedPath.split(/[*?[\]]/)[0]\<close>: the pattern up to its first glob character.\<close>

definition staticPrefix :: "string \<Rightarrow> string" where
  "staticPrefix normalizedPath = takeWhile (\<lambda>c. \<not> is_glob_char c) normalizedPath"

definition normalizePrivatePath :: "string \<Rightarrow> string" where
  "normalizePrivatePath p =
     (if startsWith p ''/tmp/'' \<or> startsWith p ''/var/'' then ''/private'' @ p else p)"

text \<open>
  \<^verbatim>\<open>
  export const isSymlinkOutsideBoundary = (originalPath, resolvedPath): boolean => {
    const normalizedOriginal = normalize(originalPath);
    const normalizedResolved = normalize(resolvedPath);
    if (normalizedResolved === normalizedOriginal) return false;
    const canonicalOriginal = normalizePrivatePath(normalizedOriginal);
    if (normalizedResolved === canonicalOriginal) return false;
    if (normalizedResolved === '/') return true;
    const resolvedParts = normalizedResolved.split('/').filter(Boolean);
    if (resolvedParts.length <= 1) return true;
    const startsWithOriginal = normalizedResolved.startsWith(normalizedOriginal + '/');
    const startsWithCanonical = normalizedResolved.startsWith(canonicalOriginal + '/');
    if (!startsWithOriginal && !startsWithCanonical) return true;
    if (
      normalizedOriginal.startsWith(normalizedResolved + '/') ||
      canonicalOriginal.startsWith(normalizedResolved + '/')
    )
      return true;
    return false;
  };
  \<close>
\<close>

definition isSymlinkOutsideBoundary :: "string \<Rightarrow> string \<Rightarrow> bool" where
  "isSymlinkOutsideBoundary originalPath resolvedPath =
     (let normalizedOriginal = normalize originalPath;
          normalizedResolved = normalize resolvedPath
      in if normalizedResolved = normalizedOriginal then False
         else (let canonicalOriginal = normalizePrivatePath normalizedOriginal
               in if normalizedResolved = canonicalOriginal then False
                  else if normalizedResolved = ''/'' then True
                  else (let resolvedParts =
                              filter (\<lambda>s. s \<noteq> []) (split_char (CHR ''/'') normalizedResolved)
                        in if length resolvedParts \<le> 1 then True
                           else (let startsWithOriginal =
                                       startsWith normalizedResolved (normalizedOriginal @ ''/'');
                                     startsWithCanonical =
                                       startsWith normalizedResolved (canonicalOriginal @ ''/'')
                                 in if \<not> startsWithOriginal \<and> \<not> startsWithCanonical then True
                                    else if startsWith normalizedOriginal (normalizedResolved @ ''/'')
                                          \<or> startsWith canonicalOriginal (normalizedResolved @ ''/'')
                                    then True
                                    else False))))"

text \<open>
  The environment of the normalizer: \<^verbatim>\<open>os.homedir()\<close>, \<^verbatim>\<open>process.cwd()\<close> and the file
  system as \<^verbatim>\<open>fs.realpathSync\<close> sees it, \<open>None\<close> when it throws (the path does not exist).
\<close>

record path_env =
  homedir :: string
  cwd :: string
  realpathSync :: "string \<Rightarrow> string option"

definition getNormalizedPath :: "path_env \<Rightarrow> string \<Rightarrow> string" where
  "getNormalizedPath env pathPattern =
     (if pathPattern = ''~'' then homedir env
      else if startsWith pathPattern ''~/'' then homedir env @ drop 1 pathPattern
      else if \<not> isAbsolute pathPattern then resolve2 (cwd env) pathPattern
      else pathPattern)"

text \<open>
  The directory that the glob branch resolves:
  \<^verbatim>\<open>staticPrefix.endsWith('/') ? staticPrefix.slice(0, -1) : dirname(staticPrefix)\<close>.
\<close>

definition prefixBaseDir :: "string \<Rightarrow> string" where
  "prefixBaseDir prefix = (if endsWith prefix ''/'' then butlast prefix else dirname prefix)"

definition handleGlobPath :: "path_env \<Rightarrow> string \<Rightarrow> string" where
  "handleGlobPath env normalizedPath =
     (let prefix = staticPrefix normalizedPath
      in if prefix = [] \<or> prefix = ''/'' then normalizedPath
         else (let baseDir = prefixBaseDir prefix
               in case realpathSync env baseDir of
                    None \<Rightarrow> normalizedPath
                  | Some resolvedBaseDir \<Rightarrow>
                      if \<not> isSymlinkOutsideBoundary baseDir resolvedBaseDir
                      then resolvedBaseDir @ drop (length baseDir) normalizedPath
                      else normalizedPath))"

definition handleNonGlobPath :: "path_env \<Rightarrow> string \<Rightarrow> string" where
  "handleNonGlobPath env normalizedPath =
     (case realpathSync env normalizedPath of
        None \<Rightarrow> normalizedPath
      | Some resolvedPath \<Rightarrow>
          if \<not> isSymlinkOutsideBoundary normalizedPath resolvedPath then resolvedPath
          else normalizedPath)"

definition normalizePathForSandbox :: "path_env \<Rightarrow> string \<Rightarrow> string" where
  "normalizePathForSandbox env pathPattern =
     (let normalizedPath = getNormalizedPath env pathPattern
      in if containsGlobChars normalizedPath then handleGlobPath env normalizedPath
         else handleNonGlobPath env normalizedPath)"


text \<open>
  The boundary in the words of the specification, on normalized paths: the resolved path
  equals the original path, or its private-prefixed form, or extends one of the two by a
  slash and further characters.
\<close>

definition inside_boundary :: "string \<Rightarrow> string \<Rightarrow> bool" where
  "inside_boundary originalPath resolvedPath =
     (let normalizedOriginal = normalize originalPath;
          normalizedResolved = normalize resolvedPath;
          canonicalOriginal = normalizePrivatePath normalizedOriginal
      in normalizedResolved = normalizedOriginal
         \<or> normalizedResolved = canonicalOriginal
         \<or> startsWith normalizedResolved (normalizedOriginal @ ''/'')
         \<or> startsWith normalizedResolved (canonicalOriginal @ ''/''))"

definition pathSegments :: "string \<Rightarrow> string list" where
  "pathSegments p = filter (\<lambda>s. s \<noteq> []) (split_char (CHR ''/'') p)"

definition no_symlinks_env :: path_env where
  "no_symlinks_env = \<lparr>homedir = ''/home/u'', cwd = ''/home/u/proj'', realpathSync = (\<lambda>p. Some p)\<rparr>"

definition macos_env :: path_env where
  "macos_env =
     \<lparr>homedir = ''/Users/u'', cwd = ''/Users/u/proj'',
      realpathSync =
        (\<lambda>p. if p = ''/tmp/vsbx'' then Some ''/private/tmp/vsbx''
             else if p = ''/Users/u/proj/escape'' then Some ''/''
             else if p = ''/Users/u/proj'' then Some ''/Users/u/proj''
             else None)\<rparr>"

section \<open>Seatbelt profile rules (profile-utils, profile-rules)\<close>

text \<open>
  \<^verbatim>\<open>escapePath = JSON.stringify\<close> on a string: in double quotes, with \<^verbatim>\<open>"\<close> and \<^verbatim>\<open>\\<close>
  escaped by a backslash, the control characters below \<open>0x20\<close> as \<^verbatim>\<open>\b \t \n \f \r\<close> or
  \<^verbatim>\<open>\u00XX\<close>, and every other character as it is.
\<close>

definition hex_digit :: "nat \<Rightarrow> char" where
  "hex_digit n = ''0123456789abcdef'' ! (n mod 16)"

definition json_escape_char :: "char \<Rightarrow> string" where
  "json_escape_char c =
     (if c = CHR 0x22 then [backslash, CHR 0x22]
      else if c = backslash then [backslash, backslash]
      else if c = CHR 0x08 then [backslash, CHR ''b'']
      else if c = CHR 0x09 then [backslash, CHR ''t'']
      else if c = CHR 0x0A then [backslash, CHR ''n'']
      else if c = CHR 0x0C then [backslash, CHR ''f'']
      else if c = CHR 0x0D then [backslash, CHR ''r'']
      else if (of_char c :: nat) < 0x20
      then backslash # ''u00'' @ [hex_digit (of_char c div 16), hex_digit (of_char c)]
      else [c])"

definition escapePath :: "string \<Rightarrow> string" where
  "escapePath pathStr = [CHR 0x22] @ concat (map json_escape_char pathStr) @ [CHR 0x22]"

text \<open>
  \<^verbatim>\<open>
  export const getAncestorDirectories = (pathStr: string): string[] => {
    const ancestors: string[] = [];
    let currentPath = dirname(pathStr);
    while (currentPath !== '/' && currentPath !== '.') {
      ancestors.push(currentPath);
      const parentPath = dirname(currentPath);
      if (parentPath === currentPath) break;
      currentPath = parentPath;
    }
    return ancestors;
  };
  \<close>
  The loop ends because \<^verbatim>\<open>dirname\<close> returns \<^verbatim>\<open>/\<close>, \<^verbatim>\<open>.\<close> or a shorter path.
\<close>

lemma dropWhile_twice_shorter:
  "dropWhile (\<lambda>x. x \<noteq> a) (dropWhile (\<lambda>x. x = a) xs) \<noteq> [] \<Longrightarrow>
   length (dropWhile (\<lambda>x. x \<noteq> a) (dropWhile (\<lambda>x. x = a) xs)) < length xs"
proof (induction xs)
  case Nil
  then show ?case by simp
next
  case (Cons x xs)
  show ?case
  proof (cases "x = a")
    case True
    with Cons show ?thesis by simp
  next
    case False
    have "length (dropWhile (\<lambda>x. x \<noteq> a) xs) \<le> length xs"
      by (rule length_dropWhile_le)
    with False show ?thesis by simp
  qed
qed

lemma dirname_shorter:
  "dirname p = ''/'' \<or> dirname p = ''.'' \<or> length (dirname p) < length p"
proof (cases p)
  case Nil
  then show ?thesis by (simp add: dirname_def)
next
  case (Cons c body)
  define after where
    "after = dropWhile (\<lambda>x. x \<noteq> CHR ''/'') (dropWhile (\<lambda>x. x = CHR ''/'') (rev body))"
  have dn: "dirname p =
      (if length after = 0 then (if c = CHR ''/'' then ''/'' else ''.'')
       else if c = CHR ''/'' \<and> length after = 1 then ''//''
       else take (length after) p)"
    unfolding dirname_def Cons after_def Let_def by simp
  show ?thesis
  proof (cases "after = []")
    case True
    then show ?thesis unfolding dn by simp
  next
    case False
    then have "length after < length (rev body)"
      unfolding after_def by (rule dropWhile_twice_shorter)
    then have lt: "length after < length body"
      by simp
    from False have pos: "0 < length after"
      by simp
    have "length (dirname p) < length p"
    proof (cases "c = CHR ''/'' \<and> length after = 1")
      case True
      with lt have "2 < length p" unfolding Cons by simp
      moreover from True pos have "dirname p = ''//''" unfolding dn by simp
      ultimately show ?thesis by simp
    next
      case False
      with pos have "dirname p = take (length after) p"
        by (auto simp: dn)
      with lt show ?thesis unfolding Cons by simp
    qed
    then show ?thesis by blast
  qed
qed

function ancestorsFrom :: "string \<Rightarrow> string list" where
  "ancestorsFrom currentPath =
     (if currentPath \<noteq> ''/'' \<and> currentPath \<noteq> ''.''
      then (let parentPath = dirname currentPath
            in if parentPath = currentPath then [currentPath]
               else currentPath # ancestorsFrom parentPath)
      else [])"
  by pat_completeness auto
termination
proof (relation "measure (\<lambda>p. if p = ''/'' \<or> p = ''.'' then 0 else Suc (length p))")
  show "wf (measure (\<lambda>p. if p = ''/'' \<or> p = ''.'' then 0 else Suc (length p)))"
    by simp
next
  fix currentPath parentPath :: string
  assume cur: "currentPath \<noteq> ''/'' \<and> currentPath \<noteq> ''.''"
    and par: "parentPath = dirname currentPath"
  let ?m = "\<lambda>p. if p = ''/'' \<or> p = ''.'' then 0 else Suc (length p)"
  from cur have mc: "?m currentPath = Suc (length currentPath)"
    by simp
  from dirname_shorter [of currentPath] par consider
      "parentPath = ''/'' \<or> parentPath = ''.''"
    | "length parentPath < length currentPath"
    by blast
  then have "?m parentPath < Suc (length currentPath)"
  proof cases
    case 1
    then have "?m parentPath = 0" by presburger
    then show ?thesis by simp
  next
    case 2
    have "?m parentPath \<le> Suc (length parentPath)" by simp
    with 2 show ?thesis by linarith
  qed
  with mc show "(parentPath, currentPath) \<in> measure ?m"
    unfolding in_measure by presburger
qed

declare ancestorsFrom.simps [simp del]

definition getAncestorDirectories :: "string \<Rightarrow> string list" where
  "getAncestorDirectories pathStr = ancestorsFrom (dirname pathStr)"

datatype rule_action = Allow | Deny

fun action_name :: "rule_action \<Rightarrow> string" where
  "action_name Allow = ''allow''"
| "action_name Deny = ''deny''"

text \<open>The last line of each rule: \<^verbatim>\<open>`  (with message "${logTag}"))`\<close>.\<close>

definition withMessage :: "string \<Rightarrow> string" where
  "withMessage logTag = ''  (with message '' @ [CHR 0x22] @ logTag @ [CHR 0x22] @ ''))''"

text \<open>
  \<^verbatim>\<open>
  export const createRuleWithGlobSupport = (pathPattern, ruleType, action, logTag): string[] => {
    const normalizedPath = normalizePathForSandbox(pathPattern);
    const rules: string[] = [];
    if (containsGlobChars(normalizedPath)) {
      const regexPattern = globToRegex(normalizedPath);
      rules.push(`(${action} ${ruleType}`, `  (regex ${escapePath(regexPattern)})`,
                 `  (with message "${logTag}"))`);
    } else {
      rules.push(`(${action} ${ruleType}`, `  (subpath ${escapePath(normalizedPath)})`,
                 `  (with message "${logTag}"))`);
    }
    return rules;
  };
  \<close>
\<close>

definition createRuleWithGlobSupport ::
  "path_env \<Rightarrow> string \<Rightarrow> string \<Rightarrow> rule_action \<Rightarrow> string \<Rightarrow> string list" where
  "createRuleWithGlobSupport env pathPattern ruleType action logTag =
     (let normalizedPath = normalizePathForSandbox env pathPattern
      in if containsGlobChars normalizedPath
         then (let regexPattern = globToRegex normalizedPath
               in [''('' @ action_name action @ '' '' @ ruleType,
                   ''  (regex '' @ escapePath regexPattern @ '')'',
                   withMessage logTag])
         else [''('' @ action_name action @ '' '' @ ruleType,
               ''  (subpath '' @ escapePath normalizedPath @ '')'',
               withMessage logTag])"

text \<open>
  \<^verbatim>\<open>
  const generateAncestorRules = (baseDir: string, logTag: string): string[] => {
    const rules: string[] = [];
    for (const ancestorDir of getAncestorDirectories(baseDir)) {
      rules.push('(deny file-write-unlink', `  (literal ${escapePath(ancestorDir)})`,
                 `  (with message "${logTag}"))`);
    }
    return rules;
  };
  \<close>
\<close>

definition generateAncestorRules :: "string \<Rightarrow> string \<Rightarrow> string list" where
  "generateAncestorRules baseDir logTag =
     concat (map (\<lambda>ancestorDir.
                    [''(deny file-write-unlink'',
                     ''  (literal '' @ escapePath ancestorDir @ '')'',
                     withMessage logTag])
                 (getAncestorDirectories baseDir))"

text \<open>
  \<^verbatim>\<open>
  const generateRulesForPath = (pathPattern: string, logTag: string): string[] => {
    const normalizedPath = normalizePathForSandbox(pathPattern);
    const rules = [...createRuleWithGlobSupport(normalizedPath, 'file-write-unlink', 'deny', logTag)];
    const staticPrefix = normalizedPath.split(/[*?[\]]/)[0];
    if (staticPrefix && staticPrefix !== '/') {
      const baseDir = staticPrefix.endsWith('/') ? staticPrefix.slice(0, -1) : dirname(staticPrefix);
      rules.push('(deny file-write-unlink', `  (literal ${escapePath(baseDir)})`,
                 `  (with message "${logTag}"))`);
      rules.push(...generateAncestorRules(baseDir, logTag));
    }
    return rules;
  };
  \<close>
\<close>

definition generateRulesForPath :: "path_env \<Rightarrow> string \<Rightarrow> string \<Rightarrow> string list" where
  "generateRulesForPath env pathPattern logTag =
     (let normalizedPath = normalizePathForSandbox env pathPattern;
          rules = createRuleWithGlobSupport env normalizedPath ''file-write-unlink'' Deny logTag;
          prefix = staticPrefix normalizedPath
      in if prefix \<noteq> [] \<and> prefix \<noteq> ''/''
         then (let baseDir = prefixBaseDir prefix
               in rules
                  @ [''(deny file-write-unlink'',
                     ''  (literal '' @ escapePath baseDir @ '')'',
                     withMessage logTag]
                  @ generateAncestorRules baseDir logTag)
         else rules)"

definition generateMoveBlockingRules :: "path_env \<Rightarrow> string list \<Rightarrow> string \<Rightarrow> string list" where
  "generateMoveBlockingRules env pathPatterns logTag =
     concat (map (\<lambda>pathPattern. generateRulesForPath env pathPattern logTag) pathPatterns)"

definition generateReadRules ::
  "path_env \<Rightarrow> FsReadRestrictionConfig option \<Rightarrow> string \<Rightarrow> string list" where
  "generateReadRules env readCfg logTag =
     (case readCfg of
        None \<Rightarrow> [''(allow file-read*)'']
      | Some cfg \<Rightarrow>
          [''(allow file-read*)'']
          @ concat (map (\<lambda>pathPattern.
                      createRuleWithGlobSupport env pathPattern ''file-read*'' Deny logTag)
                    (denyOnly cfg))
          @ generateMoveBlockingRules env (denyOnly cfg) logTag)"









section \<open>Shell quoting (shell-quote)\<close>

text \<open>
  \<^verbatim>\<open>quoteArg\<close> on a string argument (the callers below pass strings only). \<^verbatim>\<open>\s\<close> is
  \<open>is_js_space\<close>.
\<close>

definition is_alpha :: "char \<Rightarrow> bool" where
  "is_alpha c = (c \<in> set ''ABCDEFGHIJKLMNOPQRSTUVWXYZabcdefghijklmnopqrstuvwxyz'')"

definition is_shell_special :: "char \<Rightarrow> bool" where
  "is_shell_special c =
     (c \<in> set ''#!$&()*,:;<=>?@[]^`{|}'' \<or> c = CHR 0x22 \<or> c = CHR 0x27 \<or> c = backslash)"

text \<open>\<^verbatim>\<open>s.replaceAll(/(["\\$`!])/g, '\\$1')\<close> and the like: a backslash before each character of a class.\<close>

fun escapeChars :: "(char \<Rightarrow> bool) \<Rightarrow> string \<Rightarrow> string" where
  "escapeChars cls [] = []"
| "escapeChars cls (c # cs) =
     (if cls c then backslash # c # escapeChars cls cs else c # escapeChars cls cs)"

definition quoteEmpty :: string where
  "quoteEmpty = [CHR 0x27, CHR 0x27]"

definition quoteSingle :: "string \<Rightarrow> string" where
  "quoteSingle s = [CHR 0x27] @ escapeChars (\<lambda>c. c = CHR 0x27) s @ [CHR 0x27]"

definition quoteDouble :: "string \<Rightarrow> string" where
  "quoteDouble s =
     [CHR 0x22]
     @ escapeChars (\<lambda>c. c = CHR 0x22 \<or> c = backslash \<or> c = CHR ''$'' \<or> c = CHR ''`'' \<or> c = CHR ''!'') s
     @ [CHR 0x22]"

text \<open>
  \<^verbatim>\<open>s.replaceAll(/([A-Za-z]:)?([#!"$&'()*,:;<=>?@[\\\]^`{|}])/g, '$1\\$2')\<close>: at each position
  a letter and a colon before a special character are kept together with it, and the
  special character gets a backslash.
\<close>

fun quoteDefault :: "string \<Rightarrow> string" where
  "quoteDefault (c # c2 # c3 # rest) =
     (if is_alpha c \<and> c2 = CHR '':'' \<and> is_shell_special c3
      then c # c2 # backslash # c3 # quoteDefault rest
      else if is_shell_special c then backslash # c # quoteDefault (c2 # c3 # rest)
      else c # quoteDefault (c2 # c3 # rest))"
| "quoteDefault (c # cs) =
     (if is_shell_special c then backslash # c # quoteDefault cs else c # quoteDefault cs)"
| "quoteDefault [] = []"

definition quoteArg :: "string \<Rightarrow> string" where
  "quoteArg s =
     (if s = [] then quoteEmpty
      else if list_ex (\<lambda>c. c = CHR 0x22 \<or> is_js_space c \<or> c = backslash) s
              \<and> \<not> list_ex (\<lambda>c. c = CHR 0x27) s
      then quoteSingle s
      else if list_ex (\<lambda>c. c = CHR 0x22 \<or> c = CHR 0x27 \<or> is_js_space c) s then quoteDouble s
      else quoteDefault s)"

definition shellquote :: "string list \<Rightarrow> string" where
  "shellquote args = join_with '' '' (map quoteArg args)"

section \<open>Proxy environment (env-utils)\<close>

text \<open>\<^verbatim>\<open>String(n)\<close> and \<^verbatim>\<open>`${n}`\<close> for a port number.\<close>

fun decimal :: "nat \<Rightarrow> string" where
  "decimal n =
     (if n < 10 then [''0123456789'' ! n]
      else decimal (n div 10) @ [''0123456789'' ! (n mod 10)])"

declare decimal.simps [simp del]

definition noProxyAddresses :: string where
  "noProxyAddresses =
     join_with '',''
       [''localhost'', ''127.0.0.1'', ''::1'', ''*.local'', ''.local'', ''169.254.0.0/16'',
        ''10.0.0.0/8'', ''172.16.0.0/12'', ''192.168.0.0/16'']"

text \<open>A port is falsy when it is \<^verbatim>\<open>undefined\<close> or 0.\<close>

definition truthy_port :: "nat option \<Rightarrow> bool" where
  "truthy_port p = (case p of None \<Rightarrow> False | Some n \<Rightarrow> n \<noteq> 0)"

definition generateProxyEnvVars :: "platform \<Rightarrow> nat option \<Rightarrow> nat option \<Rightarrow> string list" where
  "generateProxyEnvVars pf httpPort socksPort =
     (let envVars = [''SANDBOX=1'', ''TMPDIR=/tmp/vsbx'']
      in if \<not> truthy_port httpPort \<and> \<not> truthy_port socksPort then envVars
         else
           envVars
           @ [''NO_PROXY='' @ noProxyAddresses, ''no_proxy='' @ noProxyAddresses]
           @ (case httpPort of
                None \<Rightarrow> []
              | Some h \<Rightarrow>
                  if h = 0 then []
                  else (let httpProxy = ''http://localhost:'' @ decimal h
                        in [''HTTP_PROXY='' @ httpProxy, ''HTTPS_PROXY='' @ httpProxy,
                            ''http_proxy='' @ httpProxy, ''https_proxy='' @ httpProxy]))
           @ (case socksPort of
                None \<Rightarrow> []
              | Some s \<Rightarrow>
                  if s = 0 then []
                  else (let socksProxy = ''socks5h://localhost:'' @ decimal s
                        in [''ALL_PROXY='' @ socksProxy, ''all_proxy='' @ socksProxy]
                           @ (if pf = MacOS
                              then [''GIT_SSH_COMMAND=ssh -o ProxyCommand='' @ [CHR 0x27]
                                    @ ''nc -X 5 -x localhost:'' @ decimal s @ '' %h %p''
                                    @ [CHR 0x27]]
                              else [])
                           @ [''FTP_PROXY='' @ socksProxy, ''ftp_proxy='' @ socksProxy,
                              ''RSYNC_PROXY=localhost:'' @ decimal s,
                              ''GRPC_PROXY='' @ socksProxy, ''grpc_proxy='' @ socksProxy]
                           @ (case httpPort of
                                None \<Rightarrow> []
                              | Some h \<Rightarrow>
                                  if h = 0 then []
                                  else (let httpProxy = ''http://localhost:'' @ decimal h
                                        in [''DOCKER_HTTP_PROXY='' @ httpProxy,
                                            ''DOCKER_HTTPS_PROXY='' @ httpProxy])))))"

section \<open>The Linux wrapper (linux-sandbox-utils)\<close>

text \<open>
  What the wrapper reads from the machine: the seccomp filter and the apply-seccomp binary
  (\<^verbatim>\<open>generateSeccompFilter()\<close>, \<^verbatim>\<open>getApplySeccompBinaryPath()\<close>, \<^verbatim>\<open>null\<close> when absent),
  \<^verbatim>\<open>which <shell>\<close> (\<open>None\<close> when its status is not 0), \<^verbatim>\<open>existsSync\<close>, the platform, and
  the argument list of \<^verbatim>\<open>generateFilesystemArgs\<close> for the two configs (\<open>None\<close> when it
  throws).
\<close>

record linux_env =
  le_seccompFilter :: "string option"
  le_applySeccompBinary :: "string option"
  le_which :: "string \<Rightarrow> string option"
  le_existsSync :: "string \<Rightarrow> bool"
  le_platform :: platform
  le_filesystemArgs ::
    "FsReadRestrictionConfig option \<Rightarrow> FsWriteRestrictionConfig option \<Rightarrow> string list option"

record LinuxSandboxParams =
  lp_command :: string
  lp_needsNetworkRestriction :: bool
  lp_httpSocketPath :: "string option"
  lp_socksSocketPath :: "string option"
  lp_httpProxyPort :: "nat option"
  lp_socksProxyPort :: "nat option"
  lp_readConfig :: "FsReadRestrictionConfig option"
  lp_writeConfig :: "FsWriteRestrictionConfig option"
  lp_enableWeakerNestedSandbox :: "bool option"
  lp_allowAllUnixSockets :: "bool option"
  lp_binShell :: "string option"

datatype wrap_error =
  ShellNotFound string
| ApplySeccompNotFound
| HttpSocketMissing string
| SocksSocketMissing string
| FilesystemArgsFailed

text \<open>
  A string that may be \<^verbatim>\<open>undefined\<close> or \<^verbatim>\<open>null\<close> counts as true when it is there and not
  empty: \<open>present\<close> keeps exactly these strings.
\<close>

definition present :: "string option \<Rightarrow> string option" where
  "present s = (case s of None \<Rightarrow> None | Some x \<Rightarrow> if x = [] then None else Some x)"

text \<open>
  \<^verbatim>\<open>
  const buildSandboxCommand = (httpSocketPath, socksSocketPath, userCommand, seccompFilterPath, shell) => {
    const socatCommands = [
      `socat TCP-LISTEN:3128,fork,reuseaddr UNIX-CONNECT:${httpSocketPath} >/dev/null 2>&1 &`,
      `socat TCP-LISTEN:1080,fork,reuseaddr UNIX-CONNECT:${socksSocketPath} >/dev/null 2>&1 &`,
      'trap "kill %1 %2 2>/dev/null; exit" EXIT',
    ];
    if (seccompFilterPath) {
      const applySeccompBinary = getApplySeccompBinaryPath();
      if (!applySeccompBinary) throw new Error('apply-seccomp binary not found. ...');
      const applySeccompCmd = shellquote([applySeccompBinary, seccompFilterPath, shell, '-c', userCommand]);
      const innerScript = [...socatCommands, applySeccompCmd].join('\n');
      return `${shell} -c ${shellquote([innerScript])}`;
    }
    const innerScript = [...socatCommands, `eval ${shellquote([userCommand])}`].join('\n');
    return `${shell} -c ${shellquote([innerScript])}`;
  };
  \<close>
\<close>

definition socatCommands :: "string \<Rightarrow> string \<Rightarrow> string list" where
  "socatCommands httpSocket socksSocket =
     [''socat TCP-LISTEN:3128,fork,reuseaddr UNIX-CONNECT:'' @ httpSocket @ '' >/dev/null 2>&1 &'',
      ''socat TCP-LISTEN:1080,fork,reuseaddr UNIX-CONNECT:'' @ socksSocket @ '' >/dev/null 2>&1 &'',
      ''trap '' @ [CHR 0x22] @ ''kill %1 %2 2>/dev/null; exit'' @ [CHR 0x22] @ '' EXIT'']"

definition buildSandboxCommand ::
  "linux_env \<Rightarrow> string \<Rightarrow> string \<Rightarrow> string \<Rightarrow> string option \<Rightarrow> string \<Rightarrow> wrap_error + string"
  where
  "buildSandboxCommand env httpSocket socksSocket userCommand seccompFilterPath shell =
     (case present seccompFilterPath of
        Some filterPath \<Rightarrow>
          (case present (le_applySeccompBinary env) of
             None \<Rightarrow> Inl ApplySeccompNotFound
           | Some applySeccompBinary \<Rightarrow>
               (let applySeccompCmd =
                      shellquote [applySeccompBinary, filterPath, shell, ''-c'', userCommand];
                    innerScript =
                      join_with [CHR 0x0A]
                        (socatCommands httpSocket socksSocket @ [applySeccompCmd])
                in Inr (shell @ '' -c '' @ shellquote [innerScript])))
      | None \<Rightarrow>
           (let innerScript =
                  join_with [CHR 0x0A]
                    (socatCommands httpSocket socksSocket @ [''eval '' @ shellquote [userCommand]])
            in Inr (shell @ '' -c '' @ shellquote [innerScript])))"

text \<open>\<^verbatim>\<open>handleSeccomp(allowAllUnixSockets ?? false)\<close>: the filter path, unless all sockets are allowed.\<close>

definition handleSeccomp :: "linux_env \<Rightarrow> bool \<Rightarrow> string option" where
  "handleSeccomp env allowAllUnixSockets =
     (if allowAllUnixSockets then None else le_seccompFilter env)"

text \<open>
  \<^verbatim>\<open>env.slice(0, firstEq)\<close> and \<^verbatim>\<open>env.slice(firstEq + 1)\<close> with \<^verbatim>\<open>firstEq = env.indexOf('=')\<close>,
  which is \<open>-1\<close> without an equals sign.
\<close>

definition setenvArgs :: "string \<Rightarrow> string list" where
  "setenvArgs envVar =
     (if CHR ''='' \<in> set envVar
      then [''--setenv'', takeWhile (\<lambda>c. c \<noteq> CHR ''='') envVar,
            drop 1 (dropWhile (\<lambda>c. c \<noteq> CHR ''='') envVar)]
      else [''--setenv'', butlast envVar, envVar])"

definition addProxyEnvVars ::
  "linux_env \<Rightarrow> string \<Rightarrow> string \<Rightarrow> nat option \<Rightarrow> nat option \<Rightarrow> string list
   \<Rightarrow> wrap_error + string list" where
  "addProxyEnvVars env httpSocket socksSocket httpPort socksPort bwrapArgs =
     (if \<not> le_existsSync env httpSocket then Inl (HttpSocketMissing httpSocket)
      else if \<not> le_existsSync env socksSocket then Inl (SocksSocketMissing socksSocket)
      else Inr (bwrapArgs
                @ [''--bind'', httpSocket, httpSocket, ''--bind'', socksSocket, socksSocket]
                @ concat (map setenvArgs
                            (generateProxyEnvVars (le_platform env) (Some 3128) (Some 1080)))
                @ (case httpPort of
                     None \<Rightarrow> []
                   | Some h \<Rightarrow> [''--setenv'', ''AV_HOST_HTTP_PROXY_PORT'', decimal h])
                @ (case socksPort of
                     None \<Rightarrow> []
                   | Some s \<Rightarrow> [''--setenv'', ''AV_HOST_SOCKS_PROXY_PORT'', decimal s])))"

definition handleNetworkRestriction ::
  "linux_env \<Rightarrow> bool \<Rightarrow> string option \<Rightarrow> string option \<Rightarrow> nat option \<Rightarrow> nat option
   \<Rightarrow> string list \<Rightarrow> wrap_error + string list" where
  "handleNetworkRestriction env needsNet httpSocket socksSocket httpPort socksPort bwrapArgs =
     (if \<not> needsNet then Inr bwrapArgs
      else (case (present httpSocket, present socksSocket) of
              (Some h, Some s) \<Rightarrow>
                addProxyEnvVars env h s httpPort socksPort (bwrapArgs @ [''--unshare-net''])
            | _ \<Rightarrow> Inr (bwrapArgs @ [''--unshare-net''])))"

text \<open>\<^verbatim>\<open>getShell\<close>: \<^verbatim>\<open>bash\<close> unless a shell is named, looked up with \<^verbatim>\<open>which\<close>.\<close>

definition getShell :: "linux_env \<Rightarrow> string option \<Rightarrow> wrap_error + string" where
  "getShell env binShell =
     (let name = (case present binShell of None \<Rightarrow> ''bash'' | Some b \<Rightarrow> b)
      in case le_which env name of
           None \<Rightarrow> Inl (ShellNotFound name)
         | Some path \<Rightarrow> Inr path)"

definition buildFinalCommand ::
  "linux_env \<Rightarrow> bool \<Rightarrow> string option \<Rightarrow> string option \<Rightarrow> string \<Rightarrow> string option \<Rightarrow> string
   \<Rightarrow> string list \<Rightarrow> wrap_error + string list" where
  "buildFinalCommand env needsNet httpSocket socksSocket cmd seccompFilterPath shell bwrapArgs =
     (let args = bwrapArgs @ [''--'', shell, ''-c''];
          sockets = (if needsNet then (present httpSocket, present socksSocket) else (None, None))
      in case sockets of
           (Some h, Some s) \<Rightarrow>
             (case buildSandboxCommand env h s cmd seccompFilterPath shell of
                Inl e \<Rightarrow> Inl e
              | Inr inner \<Rightarrow> Inr (args @ [inner]))
         | _ \<Rightarrow>
             (case present seccompFilterPath of
                Some filterPath \<Rightarrow>
                  (case present (le_applySeccompBinary env) of
                     None \<Rightarrow> Inl ApplySeccompNotFound
                   | Some applySeccompBinary \<Rightarrow>
                       Inr (args @ [shellquote [applySeccompBinary, filterPath, shell, ''-c'',
                                                cmd]]))
              | None \<Rightarrow> Inr (args @ [cmd])))"

text \<open>
  \<^verbatim>\<open>
  const hasReadRestrictions = readConfig && readConfig.denyOnly.length > 0;
  const hasWriteRestrictions = writeConfig !== undefined;
  if (!needsNetworkRestriction && !hasReadRestrictions && !hasWriteRestrictions) {
    return command;
  }
  \<close>
\<close>

definition hasReadRestrictions :: "LinuxSandboxParams \<Rightarrow> bool" where
  "hasReadRestrictions params =
     (case lp_readConfig params of None \<Rightarrow> False | Some rc \<Rightarrow> length (denyOnly rc) > 0)"

definition hasWriteRestrictions :: "LinuxSandboxParams \<Rightarrow> bool" where
  "hasWriteRestrictions params = (lp_writeConfig params \<noteq> None)"

definition wrapCommandWithSandboxLinux :: "linux_env \<Rightarrow> LinuxSandboxParams \<Rightarrow> wrap_error + string" where
  "wrapCommandWithSandboxLinux env params =
     (if \<not> lp_needsNetworkRestriction params \<and> \<not> hasReadRestrictions params
         \<and> \<not> hasWriteRestrictions params
      then Inr (lp_command params)
      else
        (let seccompFilterPath =
               handleSeccomp env (nullish_default (lp_allowAllUnixSockets params) False)
         in case handleNetworkRestriction env (lp_needsNetworkRestriction params)
                   (lp_httpSocketPath params) (lp_socksSocketPath params)
                   (lp_httpProxyPort params) (lp_socksProxyPort params)
                   [''--new-session'', ''--die-with-parent''] of
              Inl e \<Rightarrow> Inl e
            | Inr netArgs \<Rightarrow>
                (case le_filesystemArgs env (lp_readConfig params) (lp_writeConfig params) of
                   None \<Rightarrow> Inl FilesystemArgsFailed
                 | Some fsArgs \<Rightarrow>
                     (let bwrapArgs =
                            netArgs @ fsArgs @ [''--dev'', ''/dev'', ''--unshare-pid'']
                            @ (if nullish_default (lp_enableWeakerNestedSandbox params) False
                               then [] else [''--proc'', ''/proc''])
                      in case getShell env (lp_binShell params) of
                           Inl e \<Rightarrow> Inl e
                         | Inr shell \<Rightarrow>
                             (case buildFinalCommand env (lp_needsNetworkRestriction params)
                                     (lp_httpSocketPath params) (lp_socksSocketPath params)
                                     (lp_command params) seccompFilterPath shell bwrapArgs of
                                Inl e \<Rightarrow> Inl e
                              | Inr allArgs \<Rightarrow> Inr (shellquote (''bwrap'' # allArgs)))))))"

definition plain_linux_env :: linux_env where
  "plain_linux_env =
     \<lparr>le_seccompFilter = None, le_applySeccompBinary = None,
      le_which = (\<lambda>name. if name = ''bash'' then Some ''/bin/bash'' else None),
      le_existsSync = (\<lambda>p. False), le_platform = Linux,
      le_filesystemArgs =
        (\<lambda>rc wc. Some (case wc of None \<Rightarrow> [''--bind'', ''/'', ''/'']
                               | Some w \<Rightarrow> [''--ro-bind'', ''/'', ''/'']))\<rparr>"

definition echo_params :: LinuxSandboxParams where
  "echo_params =
     \<lparr>lp_command = ''echo hello'', lp_needsNetworkRestriction = False,
      lp_httpSocketPath = None, lp_socksSocketPath = None,
      lp_httpProxyPort = None, lp_socksProxyPort = None,
      lp_readConfig = Some \<lparr>denyOnly = []\<rparr>, lp_writeConfig = None,
      lp_enableWeakerNestedSandbox = None, lp_allowAllUnixSockets = None, lp_binShell = None\<rparr>"


definition bridged_linux_env :: linux_env where
  "bridged_linux_env =
     \<lparr>le_seccompFilter = Some ''/opt/vsbx/dist/vendor/seccomp/x64/unix-block.bpf'',
      le_applySeccompBinary = Some ''/opt/vsbx/dist/vendor/seccomp/x64/apply-seccomp'',
      le_which = (\<lambda>name. if name = ''bash'' then Some ''/bin/bash'' else None),
      le_existsSync = (\<lambda>p. True), le_platform = Linux,
      le_filesystemArgs =
        (\<lambda>rc wc. Some (case wc of None \<Rightarrow> [''--bind'', ''/'', ''/'']
                               | Some w \<Rightarrow> [''--ro-bind'', ''/'', ''/'']))\<rparr>"

definition bridged_params :: LinuxSandboxParams where
  "bridged_params =
     \<lparr>lp_command = ''echo hello'', lp_needsNetworkRestriction = True,
      lp_httpSocketPath = Some ''/tmp/vsbx-http-0123456789abcdef.sock'',
      lp_socksSocketPath = Some ''/tmp/vsbx-socks-0123456789abcdef.sock'',
      lp_httpProxyPort = Some 40001, lp_socksProxyPort = Some 40002,
      lp_readConfig = Some \<lparr>denyOnly = []\<rparr>,
      lp_writeConfig = Some \<lparr>allowOnly = [''/tmp/vsbx''], denyWithinAllow = []\<rparr>,
      lp_enableWeakerNestedSandbox = None, lp_allowAllUnixSockets = None, lp_binShell = None\<rparr>"

section \<open>Properties of the string operations\<close>

lemma startsWith_take: "startsWith s p = (take (length p) s = p)"
  by (induction s p rule: startsWith.induct) auto

lemma startsWith_append: "startsWith (p @ r) p"
  by (simp add: startsWith_take)

lemma startsWith_length: "startsWith s p \<Longrightarrow> length p \<le> length s"
  by (induction s p rule: startsWith.induct) auto

lemma startsWith_iff_append: "startsWith s p = (\<exists>r. s = p @ r)"
proof
  assume "startsWith s p"
  then have "s = p @ drop (length p) s"
    by (metis append_take_drop_id startsWith_take)
  then show "\<exists>r. s = p @ r" ..
next
  assume "\<exists>r. s = p @ r"
  then show "startsWith s p"
    by (auto simp: startsWith_append)
qed

lemma endsWith_iff_append: "endsWith s p = (\<exists>r. s = r @ p)"
proof -
  have "endsWith s p = (\<exists>r. rev s = rev p @ r)"
    by (simp add: endsWith_def startsWith_iff_append)
  also have "\<dots> = (\<exists>r. s = r @ p)"
  proof
    assume "\<exists>r. rev s = rev p @ r"
    then obtain r where "rev s = rev p @ r" ..
    then have "s = rev r @ p"
      by (metis rev_append rev_rev_ident)
    then show "\<exists>r. s = r @ p" ..
  next
    assume "\<exists>r. s = r @ p"
    then obtain r where "s = r @ p" ..
    then have "rev s = rev p @ rev r" by simp
    then show "\<exists>r. rev s = rev p @ r" ..
  qed
  finally show ?thesis .
qed

lemma endsWith_length: "endsWith s p \<Longrightarrow> length p \<le> length s"
  by (auto simp: endsWith_iff_append)

lemma length_toLowerCase: "length (toLowerCase s) = length s"
  by (simp add: toLowerCase_def)

lemma anyMatch_iff: "anyMatch host ds = (\<exists>d \<in> set ds. matchesDomainPattern host d)"
  by (induction ds) auto

section \<open>Domain-pattern validator on the listed inputs\<close>

text \<open>
  C5. The validator rejects the empty string, \<^verbatim>\<open>.com\<close>, \<^verbatim>\<open>com.\<close>, \<^verbatim>\<open>foo*bar.com\<close>,
  \<^verbatim>\<open>http://x\<close>, \<^verbatim>\<open>x/y\<close>, \<^verbatim>\<open>x:y\<close>, \<^verbatim>\<open>*.x\<close> and \<^verbatim>\<open>**.x.com\<close>, and accepts
  \<^verbatim>\<open>localhost\<close>, \<^verbatim>\<open>x.com\<close> and \<^verbatim>\<open>*.x.com\<close>.
\<close>

theorem validateDomainPattern_examples:
  "\<not> validateDomainPattern ''''
   \<and> \<not> validateDomainPattern ''.com''
   \<and> \<not> validateDomainPattern ''com.''
   \<and> \<not> validateDomainPattern ''foo*bar.com''
   \<and> \<not> validateDomainPattern ''http://x''
   \<and> \<not> validateDomainPattern ''x/y''
   \<and> \<not> validateDomainPattern ''x:y''
   \<and> \<not> validateDomainPattern ''*.x''
   \<and> \<not> validateDomainPattern ''**.x.com''
   \<and> validateDomainPattern ''localhost''
   \<and> validateDomainPattern ''x.com''
   \<and> validateDomainPattern ''*.x.com''"
  by (simp add: validateDomainPattern_def validateWildcardDomain_def endsWith_def)

section \<open>Domain matching\<close>

text \<open>
  C10. For a pattern \<^verbatim>\<open>*.d\<close>, \<open>matchesDomainPattern h p\<close> holds exactly when the
  lower-cased host ends with a dot followed by the lower-cased \<open>d\<close>, so the bare domain
  \<open>d\<close> does not match \<^verbatim>\<open>*.d\<close>; for a pattern without a wildcard it holds exactly when
  the lower-cased host equals the lower-cased pattern.
\<close>

theorem matchesDomainPattern_cases:
  "matchesDomainPattern h (''*.'' @ d) = (\<exists>r. toLowerCase h = r @ ''.'' @ toLowerCase d)
   \<and> \<not> matchesDomainPattern d (''*.'' @ d)
   \<and> (CHR ''*'' \<notin> set p \<longrightarrow> matchesDomainPattern h p = (toLowerCase h = toLowerCase p))
   \<and> (\<not> startsWith p ''*.'' \<longrightarrow> matchesDomainPattern h p = (toLowerCase h = toLowerCase p))"
proof -
  have wild: "matchesDomainPattern h (''*.'' @ d) = (\<exists>r. toLowerCase h = r @ ''.'' @ toLowerCase d)"
    for h
    by (simp add: matchesDomainPattern_def endsWith_iff_append)
  have bare: "\<not> matchesDomainPattern d (''*.'' @ d)"
  proof
    assume "matchesDomainPattern d (''*.'' @ d)"
    then obtain r where "toLowerCase d = r @ ''.'' @ toLowerCase d"
      using wild by blast
    then have "length (toLowerCase d) = length (r @ ''.'' @ toLowerCase d)"
      by simp
    then show False by simp
  qed
  have plain: "matchesDomainPattern h p = (toLowerCase h = toLowerCase p)"
    if "\<not> startsWith p ''*.''"
    using that by (simp add: matchesDomainPattern_def)
  have nostar: "\<not> startsWith p ''*.''" if "CHR ''*'' \<notin> set p"
  proof
    assume "startsWith p ''*.''"
    then obtain r where "p = ''*.'' @ r"
      by (auto simp: startsWith_iff_append)
    with that show False by simp
  qed
  from wild bare plain nostar show ?thesis by blast
qed

theorem matchesDomainPattern_cases_witness:
  "matchesDomainPattern ''API.Example.com'' ''*.example.COM''
   \<and> \<not> matchesDomainPattern ''example.COM'' ''*.example.COM''
   \<and> CHR ''*'' \<notin> set ''Example.com''
   \<and> matchesDomainPattern ''EXAMPLE.com'' ''Example.com''"
proof -
  note t = matchesDomainPattern_cases [of _ "''example.COM''" "''Example.com''"]
  have low: "\<exists>r. toLowerCase ''API.Example.com'' = r @ ''.'' @ toLowerCase ''example.COM''"
    by (rule exI [of _ "''api''"]) code_simp
  have star: "CHR ''*'' \<notin> set ''Example.com''"
    by simp
  have eq: "toLowerCase ''EXAMPLE.com'' = toLowerCase ''Example.com''"
    by code_simp
  have 1: "matchesDomainPattern ''API.Example.com'' (''*.'' @ ''example.COM'')"
    using t [THEN conjunct1] low by (rule iffD2)
  have 2: "\<not> matchesDomainPattern ''example.COM'' (''*.'' @ ''example.COM'')"
    by (rule t [THEN conjunct2, THEN conjunct1])
  have 3: "matchesDomainPattern ''EXAMPLE.com'' ''Example.com''"
    using t [THEN conjunct2, THEN conjunct2, THEN conjunct1, THEN mp, OF star] eq
    by (rule iffD2)
  from 1 2 star 3 show ?thesis by simp
qed

section \<open>Order of the network filter\<close>

text \<open>
  C2. \<open>filterNetworkRequest\<close> decides in this order: without a config it denies; a host
  matching a denied pattern is denied, also when it matches an allowed pattern; otherwise a
  host matching an allowed pattern is allowed; otherwise the answer of the ask callback is
  returned, a failing callback counting as a denial; without a callback it denies.
\<close>

theorem filterNetworkRequest_order:
  "\<not> filterNetworkRequest port host None ask
   \<and> ((\<exists>d \<in> set (deniedDomains cfg). matchesDomainPattern host d)
        \<longrightarrow> \<not> filterNetworkRequest port host (Some cfg) ask)
   \<and> (\<not> (\<exists>d \<in> set (deniedDomains cfg). matchesDomainPattern host d)
        \<and> (\<exists>d \<in> set (allowedDomains cfg). matchesDomainPattern host d)
        \<longrightarrow> filterNetworkRequest port host (Some cfg) ask)
   \<and> (\<not> (\<exists>d \<in> set (deniedDomains cfg). matchesDomainPattern host d)
        \<and> \<not> (\<exists>d \<in> set (allowedDomains cfg). matchesDomainPattern host d)
        \<longrightarrow> filterNetworkRequest port host (Some cfg) (Some cb) = (cb host port = Some True)
          \<and> \<not> filterNetworkRequest port host (Some cfg) None)"
proof -
  have none: "\<not> filterNetworkRequest port host None ask"
    by (simp add: filterNetworkRequest_def)
  have denied: "\<not> filterNetworkRequest port host (Some cfg) ask"
    if "\<exists>d \<in> set (deniedDomains cfg). matchesDomainPattern host d"
    using that by (simp add: filterNetworkRequest_def isDomainDenied_def anyMatch_iff)
  have allowed: "filterNetworkRequest port host (Some cfg) ask"
    if "\<not> (\<exists>d \<in> set (deniedDomains cfg). matchesDomainPattern host d)"
      and "\<exists>d \<in> set (allowedDomains cfg). matchesDomainPattern host d"
    using that
    by (simp add: filterNetworkRequest_def isDomainDenied_def isDomainAllowed_def anyMatch_iff)
  have asked: "filterNetworkRequest port host (Some cfg) (Some cb) = (cb host port = Some True)"
    if "\<not> (\<exists>d \<in> set (deniedDomains cfg). matchesDomainPattern host d)"
      and "\<not> (\<exists>d \<in> set (allowedDomains cfg). matchesDomainPattern host d)"
    using that
    by (auto simp: filterNetworkRequest_def isDomainDenied_def isDomainAllowed_def anyMatch_iff
        askUserPermission_def split: option.splits)
  have unasked: "\<not> filterNetworkRequest port host (Some cfg) None"
    if "\<not> (\<exists>d \<in> set (deniedDomains cfg). matchesDomainPattern host d)"
      and "\<not> (\<exists>d \<in> set (allowedDomains cfg). matchesDomainPattern host d)"
    using that
    by (simp add: filterNetworkRequest_def isDomainDenied_def isDomainAllowed_def anyMatch_iff)
  from none denied allowed asked unasked show ?thesis by blast
qed

lemma example_policy_matches:
  "matchesDomainPattern ''db.secret.corp.test'' ''*.secret.corp.test''"
  "matchesDomainPattern ''db.secret.corp.test'' ''*.corp.test''"
  "matchesDomainPattern ''Example.COM'' ''example.com''"
  "\<not> matchesDomainPattern ''Example.COM'' ''*.secret.corp.test''"
  "\<not> matchesDomainPattern ''other.org'' ''*.secret.corp.test''"
  "\<not> matchesDomainPattern ''other.org'' ''*.corp.test''"
  "\<not> matchesDomainPattern ''other.org'' ''example.com''"
  by code_simp+

theorem filterNetworkRequest_order_witness:
  "\<not> filterNetworkRequest 443 ''db.secret.corp.test'' (Some example_policy) (Some (\<lambda>h p. Some True))
   \<and> matchesDomainPattern ''db.secret.corp.test'' ''*.corp.test''
   \<and> filterNetworkRequest 443 ''Example.COM'' (Some example_policy) None
   \<and> filterNetworkRequest 80 ''other.org'' (Some example_policy) (Some (\<lambda>h p. Some (p = 80)))
   \<and> \<not> filterNetworkRequest 80 ''other.org'' (Some example_policy) (Some (\<lambda>h p. None))
   \<and> \<not> filterNetworkRequest 80 ''other.org'' (Some example_policy) None"
proof -
  have d1: "\<exists>d \<in> set (deniedDomains example_policy). matchesDomainPattern ''db.secret.corp.test'' d"
    by (simp add: example_policy_def example_policy_matches)
  have d2: "\<not> (\<exists>d \<in> set (deniedDomains example_policy). matchesDomainPattern ''Example.COM'' d)"
    by (simp add: example_policy_def example_policy_matches)
  have a2: "\<exists>d \<in> set (allowedDomains example_policy). matchesDomainPattern ''Example.COM'' d"
    by (simp add: example_policy_def example_policy_matches)
  have d3: "\<not> (\<exists>d \<in> set (deniedDomains example_policy). matchesDomainPattern ''other.org'' d)"
    by (simp add: example_policy_def example_policy_matches)
  have a3: "\<not> (\<exists>d \<in> set (allowedDomains example_policy). matchesDomainPattern ''other.org'' d)"
    by (simp add: example_policy_def example_policy_matches)
  note t = filterNetworkRequest_order [of _ _ _ example_policy]
  have 1: "\<not> filterNetworkRequest 443 ''db.secret.corp.test'' (Some example_policy)
      (Some (\<lambda>h p. Some True))"
    by (rule t [THEN conjunct2, THEN conjunct1, THEN mp, OF d1])
  have 2: "filterNetworkRequest 443 ''Example.COM'' (Some example_policy) None"
    by (rule t [THEN conjunct2, THEN conjunct2, THEN conjunct1, THEN mp, OF conjI, OF d2 a2])
  note u = t [THEN conjunct2, THEN conjunct2, THEN conjunct2, THEN mp, OF conjI, OF d3 a3]
  have 3: "filterNetworkRequest 80 ''other.org'' (Some example_policy) (Some (\<lambda>h p. Some (p = 80)))"
    using u [of 80 "\<lambda>h p. Some (p = 80)", THEN conjunct1] by simp
  have 4: "\<not> filterNetworkRequest 80 ''other.org'' (Some example_policy) (Some (\<lambda>h p. None))"
    using u [of 80 "\<lambda>h p. None", THEN conjunct1] by simp
  have 5: "\<not> filterNetworkRequest 80 ''other.org'' (Some example_policy) None"
    by (rule u [THEN conjunct2])
  from 1 2 3 4 5 example_policy_matches(2) show ?thesis by simp
qed

section \<open>Network settings of the wrapper\<close>

text \<open>
  C4. Network restriction is required exactly when an \<^verbatim>\<open>allowedDomains\<close> field is present in
  the custom config or in the manager's config, also when the list is empty; a custom config
  without the field inherits the manager's policy; the proxy is used (initialization awaited,
  ports and sockets passed on) only when the effective list of allowed domains is not empty.
\<close>

theorem buildConfigs_network:
  "needsNetworkRestriction (buildConfigs dw state custom)
     = (customAllowedDomains custom \<noteq> None \<or> stateAllowedDomains state \<noteq> None)
   \<and> (customAllowedDomains custom = Some [] \<longrightarrow>
        needsNetworkRestriction (buildConfigs dw state custom)
        \<and> \<not> needsNetworkProxy (buildConfigs dw state custom))
   \<and> (customAllowedDomains custom = None \<longrightarrow>
        needsNetworkRestriction (buildConfigs dw state custom) = (stateAllowedDomains state \<noteq> None)
        \<and> needsNetworkProxy (buildConfigs dw state custom)
            = (nullish_default (stateAllowedDomains state) [] \<noteq> []))
   \<and> needsNetworkProxy (buildConfigs dw state custom) = (effectiveAllowedDomains state custom \<noteq> [])
   \<and> awaitsInitialization (wrapNetworkOptions pf dw state custom)
        = (effectiveAllowedDomains state custom \<noteq> [])
   \<and> (effectiveAllowedDomains state custom = [] \<longrightarrow>
        opt_httpProxyPort (wrapNetworkOptions pf dw state custom) = None
        \<and> opt_socksProxyPort (wrapNetworkOptions pf dw state custom) = None
        \<and> opt_httpSocketPath (wrapNetworkOptions pf dw state custom) = None
        \<and> opt_socksSocketPath (wrapNetworkOptions pf dw state custom) = None)"
proof -
  have restr: "needsNetworkRestriction (buildConfigs dw state custom)
      = (customAllowedDomains custom \<noteq> None \<or> stateAllowedDomains state \<noteq> None)"
    by (simp add: buildConfigs_def Let_def)
  have proxy: "needsNetworkProxy (buildConfigs dw state custom)
      = (effectiveAllowedDomains state custom \<noteq> [])"
    by (simp add: buildConfigs_def Let_def)
  have empty: "effectiveAllowedDomains state custom = []" if "customAllowedDomains custom = Some []"
    using that by (simp add: effectiveAllowedDomains_def)
  have inherit: "effectiveAllowedDomains state custom = nullish_default (stateAllowedDomains state) []"
    if "customAllowedDomains custom = None"
    using that by (simp add: effectiveAllowedDomains_def)
  have await: "awaitsInitialization (wrapNetworkOptions pf dw state custom)
      = (effectiveAllowedDomains state custom \<noteq> [])"
    by (simp add: wrapNetworkOptions_def Let_def proxy)
  have ports: "opt_httpProxyPort (wrapNetworkOptions pf dw state custom) = None
      \<and> opt_socksProxyPort (wrapNetworkOptions pf dw state custom) = None
      \<and> opt_httpSocketPath (wrapNetworkOptions pf dw state custom) = None
      \<and> opt_socksSocketPath (wrapNetworkOptions pf dw state custom) = None"
    if "effectiveAllowedDomains state custom = []"
    using that by (cases pf) (simp_all add: wrapNetworkOptions_def Let_def proxy)
  show ?thesis
    using restr proxy empty inherit await ports by simp
qed

theorem buildConfigs_network_witness:
  "customAllowedDomains custom_block_all = Some []
   \<and> needsNetworkRestriction (buildConfigs [] manager_with_domains custom_block_all)
   \<and> \<not> needsNetworkProxy (buildConfigs [] manager_with_domains custom_block_all)
   \<and> opt_httpProxyPort (wrapNetworkOptions Linux [] manager_with_domains custom_block_all) = None
   \<and> customAllowedDomains custom_no_network = None
   \<and> needsNetworkRestriction (buildConfigs [] manager_with_domains custom_no_network)
   \<and> needsNetworkProxy (buildConfigs [] manager_with_domains custom_no_network)"
proof -
  have c1: "customAllowedDomains custom_block_all = Some []"
    by (simp add: customAllowedDomains_def custom_block_all_def)
  have c2: "customAllowedDomains custom_no_network = None"
    by (simp add: customAllowedDomains_def custom_no_network_def)
  have s: "stateAllowedDomains manager_with_domains = Some [''example.com'']"
    by (simp add: stateAllowedDomains_def manager_with_domains_def)
  note t1 = buildConfigs_network [of "[]" manager_with_domains custom_block_all Linux]
  note t2 = buildConfigs_network [of "[]" manager_with_domains custom_no_network Linux]
  have e: "effectiveAllowedDomains manager_with_domains custom_block_all = []"
    by (simp add: effectiveAllowedDomains_def c1)
  from t1 c1 have 1: "needsNetworkRestriction (buildConfigs [] manager_with_domains custom_block_all)
      \<and> \<not> needsNetworkProxy (buildConfigs [] manager_with_domains custom_block_all)"
    by simp
  from t1 e have 2:
    "opt_httpProxyPort (wrapNetworkOptions Linux [] manager_with_domains custom_block_all) = None"
    by simp
  from t2 c2 s have 3: "needsNetworkRestriction (buildConfigs [] manager_with_domains custom_no_network)
      \<and> needsNetworkProxy (buildConfigs [] manager_with_domains custom_no_network)"
    by simp
  from c1 c2 1 2 3 show ?thesis by simp
qed

section \<open>Denied destinations at the HTTP proxy\<close>

text \<open>
  C8. When the filter denies the destination, a CONNECT request is answered with the status
  line \<^verbatim>\<open>HTTP/1.1 403 Forbidden\<close>, the header \<^verbatim>\<open>X-Proxy-Error: blocked-by-allowlist\<close> and the
  body \<^verbatim>\<open>Connection blocked by network allowlist\<close>; a plain request with an absolute URI is
  answered with status 403 and the same header and body.
\<close>

theorem proxy_denial_response:
  "(connectTarget url = Some (host, port) \<and> flt port host = Some False \<longrightarrow>
      onConnect url flt =
        SocketEnd (http_message ''HTTP/1.1 403 Forbidden''
          [''Content-Type: text/plain'', ''X-Proxy-Error: blocked-by-allowlist'']
          ''Connection blocked by network allowlist''))
   \<and> (requestPort u = Some port' \<and> flt port' (url_hostname u) = Some False \<longrightarrow>
      onRequest (Some u) flt =
        Respond 403
          [(''Content-Type'', ''text/plain''), (''X-Proxy-Error'', ''blocked-by-allowlist'')]
          ''Connection blocked by network allowlist'')"
  by (simp add: onConnect_def handleConnectRequest_def onRequest_def handleHttpRequest_def
      http_message_def)

lemma allowlist_filter_evil: "allowlist_filter p ''evil.com'' = Some False"
  by (simp add: allowlist_filter_def filterNetworkRequest_def isDomainDenied_def
      isDomainAllowed_def matchesDomainPattern_def toLowerCase_def lower_char_def
      upper_letters_def lower_letters_def)

lemma connectTarget_evil: "connectTarget ''evil.com:443'' = Some (''evil.com'', 443)"
  by (simp add: connectTarget_def parseInt10_def is_js_space_def is_digit_def digit_value_def)

theorem proxy_denial_response_witness:
  "connectTarget ''evil.com:443'' = Some (''evil.com'', 443)
   \<and> allowlist_filter 443 ''evil.com'' = Some False
   \<and> onConnect ''evil.com:443'' allowlist_filter =
        SocketEnd (http_message ''HTTP/1.1 403 Forbidden''
          [''Content-Type: text/plain'', ''X-Proxy-Error: blocked-by-allowlist'']
          ''Connection blocked by network allowlist'')
   \<and> onRequest (Some \<lparr>url_hostname = ''evil.com'', url_port = [], url_protocol = ''http:''\<rparr>)
        allowlist_filter =
        Respond 403
          [(''Content-Type'', ''text/plain''), (''X-Proxy-Error'', ''blocked-by-allowlist'')]
          ''Connection blocked by network allowlist''"
proof -
  let ?u = "\<lparr>url_hostname = ''evil.com'', url_port = [], url_protocol = ''http:''\<rparr>"
  note t = proxy_denial_response [of "''evil.com:443''" "''evil.com''" 443 allowlist_filter ?u 80]
  have p: "requestPort ?u = Some 80"
    by (simp add: requestPort_def)
  have h: "url_hostname ?u = ''evil.com''"
    by simp
  have 1: "onConnect ''evil.com:443'' allowlist_filter =
        SocketEnd (http_message ''HTTP/1.1 403 Forbidden''
          [''Content-Type: text/plain'', ''X-Proxy-Error: blocked-by-allowlist'']
          ''Connection blocked by network allowlist'')"
    by (rule t [THEN conjunct1, THEN mp, OF conjI, OF connectTarget_evil allowlist_filter_evil])
  have f: "allowlist_filter 80 (url_hostname ?u) = Some False"
    unfolding h by (rule allowlist_filter_evil)
  have 2: "onRequest (Some ?u) allowlist_filter =
        Respond 403
          [(''Content-Type'', ''text/plain''), (''X-Proxy-Error'', ''blocked-by-allowlist'')]
          ''Connection blocked by network allowlist''"
    by (rule t [THEN conjunct2, THEN mp, OF conjI, OF p f])
  from connectTarget_evil allowlist_filter_evil 1 2 show ?thesis
    by (intro conjI)
qed

section \<open>The encoded command and the log tag\<close>

lemma length_base64: "length (base64 bs) = 4 * ((length bs + 2) div 3)"
proof (induction bs rule: base64.induct)
  case (4 a b c rest)
  have "(length (a # b # c # rest) + 2) div 3 = (length rest + 2) div 3 + 1"
    by simp
  with 4 show ?case
    by simp
qed simp_all

lemma base64_char_in_alphabet: "base64_char n \<in> set base64_alphabet"
proof -
  have "n mod 64 < length base64_alphabet"
    by (simp add: base64_alphabet_def)
  then show ?thesis
    unfolding base64_char_def by (rule nth_mem)
qed

lemma base64_chars: "c \<in> set (base64 bs) \<Longrightarrow> c \<in> set base64_alphabet \<or> c = CHR ''=''"
  by (induction bs rule: base64.induct) (auto simp: base64_char_in_alphabet)

lemma base64_no_underscore: "CHR ''_'' \<notin> set (base64 bs)"
proof
  assume "CHR ''_'' \<in> set (base64 bs)"
  then have "CHR ''_'' \<in> set base64_alphabet \<or> CHR ''_'' = CHR ''=''"
    by (rule base64_chars)
  then show False
    by (simp add: base64_alphabet_def)
qed

lemma base64_no_line_terminator: "c \<in> set (base64 bs) \<Longrightarrow> \<not> is_line_terminator c"
proof
  assume "c \<in> set (base64 bs)" and t: "is_line_terminator c"
  then have "c \<in> set base64_alphabet \<or> c = CHR ''=''"
    by (simp add: base64_chars)
  with t show False
    by (auto simp: base64_alphabet_def is_line_terminator_def)
qed

lemma base64_empty: "base64 bs = [] \<longleftrightarrow> bs = []"
  by (cases bs rule: base64.cases) simp_all

lemma utf8_encode_empty: "utf8_encode us = [] \<longleftrightarrow> us = []"
  by (cases us) (auto split: list.splits simp: Let_def)

lemma utf8_encode_ascii: "\<forall>u \<in> set us. u < 128 \<Longrightarrow> utf8_encode us = us"
  by (induction us) auto

lemma utf8_encode_e_acute: "utf8_encode (replicate n 0xE9) = concat (replicate n [0xC3, 0xA9])"
  by (induction n) auto

lemma lazy_group_END_found:
  assumes "b \<noteq> []" and "CHR ''_'' \<notin> set b" and "\<forall>c \<in> set b. \<not> is_line_terminator c"
  shows "lazy_group_END acc (b @ ''_END'' @ rest) = Some (rev acc @ b)"
  using assms
proof (induction b arbitrary: acc)
  case Nil
  then show ?case by simp
next
  case (Cons c b)
  show ?case
  proof (cases b)
    case Nil
    with Cons.prems show ?thesis by simp
  next
    case (Cons d b')
    with Cons.prems have "d \<noteq> CHR ''_''" by auto
    then have "\<not> startsWith (b @ ''_END'' @ rest) ''_END''"
      using Cons by simp
    moreover have "lazy_group_END (c # acc) (b @ ''_END'' @ rest) = Some (rev (c # acc) @ b)"
      using Cons.prems Cons by (intro Cons.IH) auto
    ultimately show ?thesis
      using Cons.prems by simp
  qed
qed

lemma exec_CMD64_tag:
  assumes "b \<noteq> []" and "CHR ''_'' \<notin> set b" and "\<forall>c \<in> set b. \<not> is_line_terminator c"
  shows "exec_CMD64 (''CMD64_'' @ b @ ''_END'' @ rest) = Some b"
  using lazy_group_END_found [OF assms, of "[]" rest] by simp

text \<open>
  C9 (as the code has it). The encoded command is the base64 text of the UTF-8 bytes of the
  first 100 UTF-16 code units of the command; for an ASCII command these are the first 100
  bytes of the command. The log tag is \<^verbatim>\<open>CMD64_\<close>, that base64 text, \<^verbatim>\<open>_END_\<close> and the
  session suffix, and for a non-empty command the monitor reads the same text back from a
  line that starts with the tag.
\<close>

theorem encodeSandboxedCommand_tag:
  "encodeSandboxedCommand command = base64 (utf8_encode (take 100 command))
   \<and> generateLogTag suffix command = ''CMD64_'' @ encodeSandboxedCommand command @ ''_END_'' @ suffix
   \<and> ((\<forall>u \<in> set command. u < 128) \<longrightarrow>
        encodeSandboxedCommand command = base64 (take 100 (utf8_encode command)))
   \<and> (command \<noteq> [] \<longrightarrow>
        extractEncodedCommand (Some (generateLogTag suffix command @ rest))
          = Some (encodeSandboxedCommand command))"
proof -
  have enc: "encodeSandboxedCommand command = base64 (utf8_encode (take 100 command))"
    by (simp add: encodeSandboxedCommand_def)
  have tag: "generateLogTag suffix command
      = ''CMD64_'' @ encodeSandboxedCommand command @ ''_END_'' @ suffix"
    by (simp add: generateLogTag_def)
  have bytes: "encodeSandboxedCommand command = base64 (take 100 (utf8_encode command))"
    if "\<forall>u \<in> set command. u < 128"
  proof -
    from that have "\<forall>u \<in> set (take 100 command). u < 128"
      by (meson in_set_takeD)
    then have "utf8_encode (take 100 command) = take 100 command"
      by (rule utf8_encode_ascii)
    moreover from that have "utf8_encode command = command"
      by (rule utf8_encode_ascii)
    ultimately show ?thesis
      by (simp add: enc)
  qed
  have readback: "extractEncodedCommand (Some (generateLogTag suffix command @ rest))
      = Some (encodeSandboxedCommand command)"
    if "command \<noteq> []"
  proof -
    let ?b = "encodeSandboxedCommand command"
    from that have "take 100 command \<noteq> []"
      by simp
    then have ne: "?b \<noteq> []"
      by (simp add: enc base64_empty utf8_encode_empty)
    have us: "CHR ''_'' \<notin> set ?b"
      unfolding enc by (rule base64_no_underscore)
    have lt: "\<forall>c \<in> set ?b. \<not> is_line_terminator c"
      unfolding enc by (blast dest: base64_no_line_terminator)
    have "generateLogTag suffix command @ rest = ''CMD64_'' @ ?b @ ''_END'' @ (''_'' @ suffix @ rest)"
      by (simp add: tag)
    moreover have "exec_CMD64 (''CMD64_'' @ ?b @ ''_END'' @ (''_'' @ suffix @ rest)) = Some ?b"
      using ne us lt by (rule exec_CMD64_tag)
    ultimately show ?thesis
      by (simp add: extractEncodedCommand_def)
  qed
  from enc tag bytes readback show ?thesis by blast
qed

theorem encodeSandboxedCommand_tag_witness:
  "ascii ''echo hello'' \<noteq> []
   \<and> encodeSandboxedCommand (ascii ''echo hello'')
        = base64 (take 100 (utf8_encode (ascii ''echo hello'')))
   \<and> extractEncodedCommand
        (Some (generateLogTag (sessionSuffix ''k3j9x0a1b'') (ascii ''echo hello'') @ '' deny''))
        = Some (encodeSandboxedCommand (ascii ''echo hello''))"
proof -
  note t = encodeSandboxedCommand_tag [of "ascii ''echo hello''" "sessionSuffix ''k3j9x0a1b''"
      "'' deny''"]
  have a: "\<forall>u \<in> set (ascii ''echo hello''). u < 128"
    by (simp add: ascii_def)
  have n: "ascii ''echo hello'' \<noteq> []"
    by (simp add: ascii_def)
  note 1 = t [THEN conjunct2, THEN conjunct2, THEN conjunct1, THEN mp, OF a]
  note 2 = t [THEN conjunct2, THEN conjunct2, THEN conjunct2, THEN mp, OF n]
  from n 1 2 show ?thesis
    by (intro conjI)
qed

text \<open>
  As stated, with "the first 100 bytes of the command", the claim fails on a command with
  non-ASCII characters: 52 times U+00E9 are 104 bytes of UTF-8, and all of them are encoded.
\<close>

theorem encodeSandboxedCommand_not_100_bytes:
  "encodeSandboxedCommand (replicate 52 0xE9)
     \<noteq> base64 (take 100 (utf8_encode (replicate 52 0xE9)))"
proof
  assume "encodeSandboxedCommand (replicate 52 0xE9)
     = base64 (take 100 (utf8_encode (replicate 52 0xE9)))"
  then have "length (encodeSandboxedCommand (replicate 52 0xE9))
     = length (base64 (take 100 (utf8_encode (replicate 52 0xE9))))"
    by simp
  then show False
    by (simp add: encodeSandboxedCommand_def length_base64 utf8_encode_e_acute length_concat
        sum_list_replicate)
qed

section \<open>The symlink boundary\<close>

lemma length_normalizePrivatePath: "length p \<le> length (normalizePrivatePath p)"
  by (simp add: normalizePrivatePath_def)

lemma accepted_inside_boundary:
  "\<not> isSymlinkOutsideBoundary originalPath resolvedPath \<Longrightarrow> inside_boundary originalPath resolvedPath"
  unfolding isSymlinkOutsideBoundary_def inside_boundary_def Let_def
  by (auto split: if_splits)

lemma accepted_not_short:
  assumes "\<not> isSymlinkOutsideBoundary originalPath resolvedPath"
    and "normalize resolvedPath \<noteq> normalize originalPath"
    and "normalize resolvedPath \<noteq> normalizePrivatePath (normalize originalPath)"
  shows "normalize resolvedPath \<noteq> ''/'' \<and> 2 \<le> length (pathSegments (normalize resolvedPath))"
  using assms
  unfolding isSymlinkOutsideBoundary_def pathSegments_def Let_def
  by (auto split: if_splits)

lemma inside_boundary_not_ancestor:
  assumes "inside_boundary originalPath resolvedPath"
  shows "\<not> startsWith (normalize originalPath) (normalize resolvedPath @ ''/'')"
proof
  assume "startsWith (normalize originalPath) (normalize resolvedPath @ ''/'')"
  then have short: "length (normalize resolvedPath) < length (normalize originalPath)"
    by (auto dest: startsWith_length)
  from assms consider
      "normalize resolvedPath = normalize originalPath"
    | "normalize resolvedPath = normalizePrivatePath (normalize originalPath)"
    | "startsWith (normalize resolvedPath) (normalize originalPath @ ''/'')"
    | "startsWith (normalize resolvedPath) (normalizePrivatePath (normalize originalPath) @ ''/'')"
    unfolding inside_boundary_def Let_def by blast
  then show False
  proof cases
    case 1
    with short show False by simp
  next
    case 2
    with short length_normalizePrivatePath [of "normalize originalPath"] show False by simp
  next
    case 3
    then have "length (normalize originalPath) < length (normalize resolvedPath)"
      by (auto dest: startsWith_length)
    with short show False by simp
  next
    case 4
    then have "length (normalizePrivatePath (normalize originalPath)) < length (normalize resolvedPath)"
      by (auto dest: startsWith_length)
    with short length_normalizePrivatePath [of "normalize originalPath"] show False by simp
  qed
qed

lemma handleNonGlobPath_cases:
  "handleNonGlobPath env q =
     (case realpathSync env q of
        None \<Rightarrow> q
      | Some r \<Rightarrow> if isSymlinkOutsideBoundary q r then q else r)"
  by (simp add: handleNonGlobPath_def split: option.splits)

text \<open>
  C1 (as the code has it). Let \<open>Q\<close> be the path after the expansion of \<^verbatim>\<open>~\<close> and of a relative
  path. For \<open>Q\<close> without glob characters the normalizer returns \<open>Q\<close> itself or the real path
  of \<open>Q\<close>, and the real path only inside the boundary: normalized, it equals \<open>Q\<close>, or the
  private-prefixed form of \<open>Q\<close>, or extends one of them below a slash. The result is \<^verbatim>\<open>/\<close> or a
  single segment only when it is \<open>Q\<close> or that form itself, and it is never a proper ancestor of
  \<open>Q\<close>. When \<^verbatim>\<open>realpathSync\<close> fails or resolves outside the boundary, \<open>Q\<close> is returned. For a
  glob pattern the same holds for the directory of the static prefix, and the rest of the
  pattern is appended to the accepted real path.
\<close>

theorem normalizePathForSandbox_boundary:
  "(\<not> containsGlobChars (getNormalizedPath env P) \<longrightarrow>
      (normalizePathForSandbox env P = getNormalizedPath env P
       \<or> realpathSync env (getNormalizedPath env P) = Some (normalizePathForSandbox env P)
         \<and> inside_boundary (getNormalizedPath env P) (normalizePathForSandbox env P))
      \<and> (realpathSync env (getNormalizedPath env P) = None \<longrightarrow>
           normalizePathForSandbox env P = getNormalizedPath env P)
      \<and> (realpathSync env (getNormalizedPath env P) = Some R
           \<and> isSymlinkOutsideBoundary (getNormalizedPath env P) R \<longrightarrow>
           normalizePathForSandbox env P = getNormalizedPath env P)
      \<and> (normalize (normalizePathForSandbox env P) = ''/'' \<longrightarrow>
           normalize (getNormalizedPath env P) = ''/'')
      \<and> (length (pathSegments (normalize (normalizePathForSandbox env P))) \<le> 1 \<longrightarrow>
           normalize (normalizePathForSandbox env P) = normalize (getNormalizedPath env P)
           \<or> normalize (normalizePathForSandbox env P)
              = normalizePrivatePath (normalize (getNormalizedPath env P)))
      \<and> \<not> startsWith (normalize (getNormalizedPath env P))
             (normalize (normalizePathForSandbox env P) @ ''/''))
   \<and> (containsGlobChars (getNormalizedPath env P) \<longrightarrow>
      normalizePathForSandbox env P = getNormalizedPath env P
      \<or> (\<exists>R'. realpathSync env (prefixBaseDir (staticPrefix (getNormalizedPath env P))) = Some R'
            \<and> inside_boundary (prefixBaseDir (staticPrefix (getNormalizedPath env P))) R'
            \<and> normalizePathForSandbox env P
                = R' @ drop (length (prefixBaseDir (staticPrefix (getNormalizedPath env P))))
                        (getNormalizedPath env P)))"
proof -
  let ?Q = "getNormalizedPath env P"
  let ?N = "normalizePathForSandbox env P"
  have glob: "?N = ?Q
      \<or> (\<exists>R'. realpathSync env (prefixBaseDir (staticPrefix ?Q)) = Some R'
            \<and> inside_boundary (prefixBaseDir (staticPrefix ?Q)) R'
            \<and> ?N = R' @ drop (length (prefixBaseDir (staticPrefix ?Q))) ?Q)"
    if "containsGlobChars ?Q"
    using that
    by (auto simp: normalizePathForSandbox_def handleGlobPath_def Let_def
        accepted_inside_boundary split: option.splits)
  have plain: "?N = handleNonGlobPath env ?Q" if "\<not> containsGlobChars ?Q"
    using that by (simp add: normalizePathForSandbox_def)
  have nonglob:
    "(?N = ?Q \<or> realpathSync env ?Q = Some ?N \<and> inside_boundary ?Q ?N)
      \<and> (realpathSync env ?Q = None \<longrightarrow> ?N = ?Q)
      \<and> (realpathSync env ?Q = Some R \<and> isSymlinkOutsideBoundary ?Q R \<longrightarrow> ?N = ?Q)
      \<and> (normalize ?N = ''/'' \<longrightarrow> normalize ?Q = ''/'')
      \<and> (length (pathSegments (normalize ?N)) \<le> 1 \<longrightarrow>
           normalize ?N = normalize ?Q \<or> normalize ?N = normalizePrivatePath (normalize ?Q))
      \<and> \<not> startsWith (normalize ?Q) (normalize ?N @ ''/'')"
    if ng: "\<not> containsGlobChars ?Q"
  proof (cases "?N = ?Q")
    case True
    have "\<not> startsWith (normalize ?Q) (normalize ?Q @ ''/'')"
      by (auto dest: startsWith_length)
    with True show ?thesis
      by (auto simp: plain [OF ng] handleNonGlobPath_cases split: option.splits if_splits)
  next
    case False
    then have acc: "realpathSync env ?Q = Some ?N" "\<not> isSymlinkOutsideBoundary ?Q ?N"
      by (auto simp: plain [OF ng] handleNonGlobPath_cases split: option.splits if_splits)
    then have ins: "inside_boundary ?Q ?N"
      by (simp add: accepted_inside_boundary)
    have root: "normalize ?Q = ''/''" if "normalize ?N = ''/''"
    proof (rule ccontr)
      assume ne: "normalize ?Q \<noteq> ''/''"
      show False
      proof (cases "normalize ?N = normalizePrivatePath (normalize ?Q)")
        case True
        with that ne show False
          by (auto simp: normalizePrivatePath_def split: if_splits)
      next
        case False
        with accepted_not_short [OF acc(2)] that ne show False by auto
      qed
    qed
    have single: "normalize ?N = normalize ?Q \<or> normalize ?N = normalizePrivatePath (normalize ?Q)"
      if "length (pathSegments (normalize ?N)) \<le> 1"
      using accepted_not_short [OF acc(2)] that by fastforce
    from acc ins root single inside_boundary_not_ancestor [OF ins] show ?thesis
      by auto
  qed
  from glob nonglob show ?thesis by blast
qed

theorem normalizePathForSandbox_boundary_witness:
  "normalizePathForSandbox macos_env ''escape'' = ''/Users/u/proj/escape''
   \<and> realpathSync macos_env ''/Users/u/proj/escape'' = Some ''/''
   \<and> normalizePathForSandbox macos_env ''/tmp/vsbx'' = ''/private/tmp/vsbx''
   \<and> inside_boundary ''/tmp/vsbx'' ''/private/tmp/vsbx''
   \<and> normalizePathForSandbox macos_env ''/tmp/missing'' = ''/tmp/missing''
   \<and> normalizePathForSandbox macos_env ''*.txt'' = ''/Users/u/proj/*.txt''"
proof -
  have q1: "getNormalizedPath macos_env ''escape'' = ''/Users/u/proj/escape''"
    by code_simp
  have g1: "\<not> containsGlobChars ''/Users/u/proj/escape''"
    by code_simp
  have r1: "realpathSync macos_env ''/Users/u/proj/escape'' = Some ''/''"
    by (simp add: macos_env_def)
  have o1: "isSymlinkOutsideBoundary ''/Users/u/proj/escape'' ''/''"
    by code_simp
  note t1 = normalizePathForSandbox_boundary [of macos_env "''escape''" "''/''", unfolded q1]
  note n1 = t1 [THEN conjunct1, THEN mp, OF g1, THEN conjunct2, THEN conjunct2, THEN conjunct1,
      THEN mp, OF conjI, OF r1 o1]
  have q3: "getNormalizedPath macos_env ''/tmp/missing'' = ''/tmp/missing''"
    by code_simp
  have g3: "\<not> containsGlobChars ''/tmp/missing''"
    by code_simp
  have r3: "realpathSync macos_env ''/tmp/missing'' = None"
    by (simp add: macos_env_def)
  note t3 = normalizePathForSandbox_boundary [of macos_env "''/tmp/missing''" "''/''", unfolded q3]
  note n3 = t3 [THEN conjunct1, THEN mp, OF g3, THEN conjunct2, THEN conjunct1, THEN mp, OF r3]
  have n2: "normalizePathForSandbox macos_env ''/tmp/vsbx'' = ''/private/tmp/vsbx''"
    by code_simp
  have i2: "inside_boundary ''/tmp/vsbx'' ''/private/tmp/vsbx''"
    by code_simp
  have n4: "normalizePathForSandbox macos_env ''*.txt'' = ''/Users/u/proj/*.txt''"
    by code_simp
  from n1 r1 n2 i2 n3 n4 show ?thesis
    by (intro conjI)
qed

text \<open>
  As stated, with "never \<^verbatim>\<open>/\<close>" and "never a single-segment path", the claim fails on the
  paths \<^verbatim>\<open>/\<close> and \<^verbatim>\<open>/tmp\<close> themselves, which resolve to themselves and are returned.
\<close>

theorem normalizePathForSandbox_root:
  "normalizePathForSandbox no_symlinks_env ''/'' = ''/''
   \<and> normalizePathForSandbox no_symlinks_env ''/tmp'' = ''/tmp''"
  by (simp add: normalizePathForSandbox_def getNormalizedPath_def isAbsolute_def
      containsGlobChars_def is_glob_char_def handleNonGlobPath_def no_symlinks_env_def
      isSymlinkOutsideBoundary_def)

section \<open>Rename protection of denied paths\<close>
























text \<open>The iterates of \<^verbatim>\<open>dirname\<close> on an absolute path stay absolute: none of them is \<^verbatim>\<open>.\<close>.\<close>

lemma dirname_absolute_head: "hd (dirname (CHR ''/'' # body)) = CHR ''/''"
proof -
  define after where
    "after = dropWhile (\<lambda>x. x \<noteq> CHR ''/'') (dropWhile (\<lambda>x. x = CHR ''/'') (rev body))"
  have d: "dirname (CHR ''/'' # body) =
      (if length after = 0 then (if CHR ''/'' = CHR ''/'' then ''/'' else ''.'')
       else if CHR ''/'' = CHR ''/'' \<and> length after = 1 then ''//''
       else take (length after) (CHR ''/'' # body))"
    unfolding dirname_def Let_def after_def list.case ..
  show ?thesis
  proof (cases "length after")
    case 0
    then show ?thesis unfolding d by simp
  next
    case (Suc n)
    then show ?thesis unfolding d by simp
  qed
qed

lemma dirname_nonempty: "dirname p \<noteq> []"
proof (cases p)
  case Nil
  then show ?thesis by (simp add: dirname_def)
next
  case (Cons c body)
  define after where
    "after = dropWhile (\<lambda>x. x \<noteq> CHR ''/'') (dropWhile (\<lambda>x. x = CHR ''/'') (rev body))"
  have d: "dirname (c # body) =
      (if length after = 0 then (if c = CHR ''/'' then ''/'' else ''.'')
       else if c = CHR ''/'' \<and> length after = 1 then ''//''
       else take (length after) (c # body))"
    unfolding dirname_def Let_def after_def list.case ..
  show ?thesis
  proof (cases "length after")
    case 0
    then show ?thesis unfolding Cons d by simp
  next
    case (Suc n)
    then show ?thesis unfolding Cons d by simp
  qed
qed

lemma dirname_absolute: "isAbsolute p \<Longrightarrow> isAbsolute (dirname p)"
proof -
  assume "isAbsolute p"
  then obtain body where p: "p = CHR ''/'' # body"
    by (cases p) (auto simp: isAbsolute_def)
  have "dirname p \<noteq> []"
    by (rule dirname_nonempty)
  moreover have "hd (dirname p) = CHR ''/''"
    unfolding p by (rule dirname_absolute_head)
  ultimately show ?thesis
    by (cases "dirname p") (auto simp: isAbsolute_def)
qed

lemma dirname_iterates_absolute: "isAbsolute p \<Longrightarrow> (dirname ^^ k) p \<noteq> ''.''"
proof -
  assume "isAbsolute p"
  then have "isAbsolute ((dirname ^^ k) p)"
    by (induction k) (auto simp: dirname_absolute)
  then show ?thesis
    by (auto simp: isAbsolute_def)
qed





text \<open>
  The rules for the read restriction \<^verbatim>\<open>denyOnly: ['/Users/u/proj/secrets/*.pem']\<close>: the deny
  rule on the pattern, then the rename protection of the pattern, of the directory that
  holds the matches and of each directory above it.
\<close>

lemma generateReadRules_glob_example:
  "generateReadRules macos_env (Some \<lparr>denyOnly = [''/Users/u/proj/secrets/*.pem'']\<rparr>) ''TAG'' =
     [''(allow file-read*)'',
      ''(deny file-read*'',
      ''  (regex '' @ [CHR 0x22] @ ''^/Users/u/proj/secrets/[^/]*'' @ [backslash, backslash]
        @ ''.pem$'' @ [CHR 0x22] @ '')'',
      ''  (with message '' @ [CHR 0x22] @ ''TAG'' @ [CHR 0x22] @ ''))'',
      ''(deny file-write-unlink'',
      ''  (regex '' @ [CHR 0x22] @ ''^/Users/u/proj/secrets/[^/]*'' @ [backslash, backslash]
        @ ''.pem$'' @ [CHR 0x22] @ '')'',
      ''  (with message '' @ [CHR 0x22] @ ''TAG'' @ [CHR 0x22] @ ''))'',
      ''(deny file-write-unlink'',
      ''  (literal '' @ [CHR 0x22] @ ''/Users/u/proj/secrets'' @ [CHR 0x22] @ '')'',
      ''  (with message '' @ [CHR 0x22] @ ''TAG'' @ [CHR 0x22] @ ''))'',
      ''(deny file-write-unlink'',
      ''  (literal '' @ [CHR 0x22] @ ''/Users/u/proj'' @ [CHR 0x22] @ '')'',
      ''  (with message '' @ [CHR 0x22] @ ''TAG'' @ [CHR 0x22] @ ''))'',
      ''(deny file-write-unlink'',
      ''  (literal '' @ [CHR 0x22] @ ''/Users/u'' @ [CHR 0x22] @ '')'',
      ''  (with message '' @ [CHR 0x22] @ ''TAG'' @ [CHR 0x22] @ ''))'',
      ''(deny file-write-unlink'',
      ''  (literal '' @ [CHR 0x22] @ ''/Users'' @ [CHR 0x22] @ '')'',
      ''  (with message '' @ [CHR 0x22] @ ''TAG'' @ [CHR 0x22] @ ''))'']"
  by code_simp









section \<open>Glob patterns in rules\<close>

lemma createRuleWithGlobSupport_kinds:
  "createRuleWithGlobSupport env p ruleType action logTag =
     [''('' @ action_name action @ '' '' @ ruleType,
      (if containsGlobChars (normalizePathForSandbox env p)
       then ''  (regex '' @ escapePath (globToRegex (normalizePathForSandbox env p)) @ '')''
       else ''  (subpath '' @ escapePath (normalizePathForSandbox env p) @ '')''),
      withMessage logTag]"
  by (simp add: createRuleWithGlobSupport_def Let_def)

lemma globToRegex_anchored:
  "startsWith (globToRegex p) ''^'' \<and> endsWith (globToRegex p) ''$''"
  by (simp add: globToRegex_def endsWith_def)

lemma globToRegex_agrees_on_example:
  "globToRegex ''/Users/u/proj/**/*.test.[jt]s?'' = spec_globToRegex ''/Users/u/proj/**/*.test.[jt]s?''"
  by code_simp

text \<open>
  Agreement of the chain of replacements with the one-pass translation: each replacement
  is one change of a parameter of \<open>glob_stage\<close>.
\<close>

lemma spec_glob_body_stage: "spec_glob_body p = glob_stage ''(.*/)?'' ''.*'' ''[^/]*'' ''[^/]'' p"
  by (induction p rule: spec_glob_body.induct) auto

lemma replaceAll_copy1:
  "c \<noteq> h \<Longrightarrow> replaceAll (h # pat) rep (c # y) = c # replaceAll (h # pat) rep y"
  by simp

lemma replaceAll_copy:
  "h \<notin> set w \<Longrightarrow> replaceAll (h # pat) rep (w @ y) = w @ replaceAll (h # pat) rep y"
  by (induction w) auto

lemma replaceAll_match:
  "replaceAll (h # pat) rep ((h # pat) @ y) = rep @ replaceAll (h # pat) rep y"
  using startsWith_append [of "h # pat" y] by simp

lemma replaceAll_nomatch:
  "\<not> startsWith (c # y) pat \<Longrightarrow> replaceAll pat rep (c # y) = c # replaceAll pat rep y"
  by simp

lemma plain_glob_tl: "plain_glob (x # xs) \<Longrightarrow> plain_glob xs"
  by (auto simp: plain_glob_def)

lemma plain_glob_drop: "plain_glob p \<Longrightarrow> plain_glob (drop n p)"
proof (induction n arbitrary: p)
  case 0
  then show ?case by simp
next
  case (Suc n)
  then show ?case
    by (cases p) (auto dest: plain_glob_tl)
qed

lemma is_regex_meta_not_glob:
  "is_regex_meta m \<Longrightarrow> m \<noteq> CHR ''*'' \<and> m \<noteq> CHR ''?'' \<and> m \<noteq> CHR ''_'' \<and> m \<noteq> CHR ''/''"
  by (auto simp: is_regex_meta_def backslash_def)

text \<open>The head token of a plain pattern.\<close>

lemma glob_tokens [consumes 1, case_names Nil SS S2 S1 Q Meta Ord]:
  assumes "plain_glob p"
  obtains "p = []"
  | r where "p = CHR ''*'' # CHR ''*'' # CHR ''/'' # r" "plain_glob r"
  | r where "p = CHR ''*'' # CHR ''*'' # r" "plain_glob r" "\<not> startsWith r ''/''"
      "\<not> startsWith r ''*''"
  | r where "p = CHR ''*'' # r" "plain_glob r" "\<not> startsWith r ''*''"
  | r where "p = CHR ''?'' # r" "plain_glob r"
  | m r where "p = m # r" "is_regex_meta m" "plain_glob r"
  | c r where "p = c # r" "c \<noteq> CHR ''*''" "c \<noteq> CHR ''?''" "c \<noteq> CHR ''_''"
      "\<not> is_regex_meta c" "plain_glob r"
proof (cases p)
  case Nil
  then show ?thesis using that(1) by simp
next
  case (Cons x xs)
  with assms have pxs: "plain_glob xs" by (auto dest: plain_glob_tl)
  show ?thesis
  proof (cases "x = CHR ''*''")
    case True
    note x = this
    show ?thesis
    proof (cases "startsWith xs ''*''")
      case True
      then obtain ys where xs: "xs = CHR ''*'' # ys"
        by (cases xs) auto
      from assms have nostar: "\<not> startsWith ys ''*''"
        unfolding Cons x xs by (cases ys) (auto simp: plain_glob_def)
      from pxs xs have pys: "plain_glob ys" by (auto dest: plain_glob_tl)
      show ?thesis
      proof (cases "startsWith ys ''/''")
        case True
        then obtain zs where ys: "ys = CHR ''/'' # zs"
          by (cases ys) auto
        from pys ys have "plain_glob zs" by (auto dest: plain_glob_tl)
        moreover have "p = CHR ''*'' # CHR ''*'' # CHR ''/'' # zs"
          unfolding Cons x xs ys by simp
        ultimately show ?thesis using that(2) by blast
      next
        case False
        moreover have "p = CHR ''*'' # CHR ''*'' # ys"
          unfolding Cons x xs by simp
        ultimately show ?thesis using that(3) pys nostar by blast
      qed
    next
      case False
      moreover have "p = CHR ''*'' # xs"
        unfolding Cons x by simp
      ultimately show ?thesis using that(4) pxs by blast
    qed
  next
    case False
    note nstar = this
    show ?thesis
    proof (cases "x = CHR ''?''")
      case True
      then have "p = CHR ''?'' # xs" unfolding Cons by simp
      then show ?thesis using that(5) pxs by blast
    next
      case False
      show ?thesis
      proof (cases "is_regex_meta x")
        case True
        then show ?thesis using that(6) Cons pxs by blast
      next
        case False
        moreover from assms Cons have "x \<noteq> CHR ''_''"
          by (auto simp: plain_glob_def)
        ultimately show ?thesis
          using that(7) Cons pxs nstar \<open>x \<noteq> CHR ''?''\<close> by blast
      qed
    qed
  qed
qed

lemma glob_stage_SS:
  "glob_stage a b c d (CHR ''*'' # CHR ''*'' # CHR ''/'' # r) = a @ glob_stage a b c d r"
  by simp

lemma glob_stage_S2:
  "\<not> startsWith r ''/'' \<Longrightarrow>
   glob_stage a b c d (CHR ''*'' # CHR ''*'' # r) = b @ glob_stage a b c d r"
  by (cases r) auto

lemma glob_stage_S1:
  "\<not> startsWith r ''*'' \<Longrightarrow> glob_stage a b c d (CHR ''*'' # r) = c @ glob_stage a b c d r"
  by (cases r) auto

lemma glob_stage_Q: "glob_stage a b c d (CHR ''?'' # r) = d @ glob_stage a b c d r"
  by simp

lemma glob_stage_Meta:
  "is_regex_meta m \<Longrightarrow> glob_stage a b c d (m # r) = backslash # m # glob_stage a b c d r"
  using is_regex_meta_not_glob [of m] by simp

lemma glob_stage_Ord:
  "c' \<noteq> CHR ''*'' \<Longrightarrow> c' \<noteq> CHR ''?'' \<Longrightarrow> \<not> is_regex_meta c' \<Longrightarrow>
   glob_stage a b c d (c' # r) = c' # glob_stage a b c d r"
  by simp

lemmas glob_stage_tokens =
  glob_stage_SS glob_stage_S2 glob_stage_S1 glob_stage_Q glob_stage_Meta glob_stage_Ord

declare glob_stage.simps(2) [simp del]

text \<open>How the output of a stage starts, from how the pattern starts.\<close>

lemma stage_head_no_star:
  assumes "\<not> startsWith r ''*''"
  shows "\<not> startsWith (glob_stage a b c ''?'' r) ''*''"
proof (cases r)
  case Nil
  then show ?thesis by simp
next
  case (Cons x xs)
  with assms have "x \<noteq> CHR ''*''" by simp
  then show ?thesis
    unfolding Cons by (auto simp: glob_stage.simps backslash_def)
qed

lemma stage_head_no_slash:
  assumes "\<not> startsWith r ''/''" and "\<not> startsWith r ''*''"
  shows "\<not> startsWith (glob_stage a b c ''?'' r) ''/''"
proof (cases r)
  case Nil
  then show ?thesis by simp
next
  case (Cons x xs)
  with assms have "x \<noteq> CHR ''*''" "x \<noteq> CHR ''/''" by simp_all
  then show ?thesis
    unfolding Cons by (auto simp: glob_stage.simps backslash_def)
qed

lemma stage_head_no_underscore:
  assumes "CHR ''_'' \<notin> set r" and "\<not> startsWith r ''*''"
  shows "\<not> startsWith (glob_stage a b c ''[^/]'' r) ''_''"
proof (cases r)
  case Nil
  then show ?thesis by simp
next
  case (Cons x xs)
  with assms have "x \<noteq> CHR ''*''" "x \<noteq> CHR ''_''" by auto
  then show ?thesis
    unfolding Cons by (auto simp: glob_stage.simps backslash_def)
qed

lemma stage_head_not_placeholder_tail:
  assumes "plain_glob r" and "set w \<subseteq> set ''GLOBSTAR''"
  shows "\<not> startsWith
           (glob_stage ''__GLOBSTAR_SLASH__'' ''__GLOBSTAR__'' ''[^/]*'' ''[^/]'' r) (w @ ''_S'')"
  using assms
proof (induction w arbitrary: r)
  case Nil
  from Nil.prems(1) show ?case
    by (cases r rule: glob_tokens) (auto simp: glob_stage_tokens backslash_def)
next
  case (Cons x w)
  then have x: "x \<in> set ''GLOBSTAR''" and w: "set w \<subseteq> set ''GLOBSTAR''"
    by auto
  from Cons.prems(1) show ?case
  proof (cases r rule: glob_tokens)
    case Nil
    then show ?thesis by simp
  next
    case (SS r')
    with x show ?thesis by (auto simp: glob_stage_tokens)
  next
    case (S2 r')
    with x show ?thesis by (auto simp: glob_stage_tokens)
  next
    case (S1 r')
    with x show ?thesis by (auto simp: glob_stage_tokens)
  next
    case (Q r')
    with x show ?thesis by (auto simp: glob_stage_tokens)
  next
    case (Meta m r')
    with x show ?thesis by (auto simp: glob_stage_tokens backslash_def)
  next
    case (Ord c r')
    from Cons.IH [OF Ord(6) w] Ord(1-5) show ?thesis
      by (simp add: glob_stage_tokens)
  qed
qed

lemma stage1:
  "plain_glob p \<Longrightarrow> escapeRegexMeta p = glob_stage ''**/'' ''**'' ''*'' ''?'' p"
proof (induction p rule: length_induct)
  case (1 p)
  let ?out = "glob_stage ''**/'' ''**'' ''*'' ''?''"
  have IH: "escapeRegexMeta r = ?out r" if "length r < length p" "plain_glob r" for r
    using 1 that by blast
  have star: "\<not> is_regex_meta (CHR ''*'')" and slash: "\<not> is_regex_meta (CHR ''/'')"
    and quest: "\<not> is_regex_meta (CHR ''?'')"
    by (simp_all add: is_regex_meta_def backslash_def)
  from 1(2) show ?case
  proof (cases p rule: glob_tokens)
    case Nil
    then show ?thesis by simp
  next
    case (SS r)
    then have "escapeRegexMeta r = ?out r" by (intro IH) auto
    then show ?thesis
      unfolding SS(1) glob_stage_SS by (simp add: star slash)
  next
    case (S2 r)
    then have "escapeRegexMeta r = ?out r" by (intro IH) auto
    with S2 show ?thesis
      by (simp add: glob_stage_S2 star)
  next
    case (S1 r)
    then have "escapeRegexMeta r = ?out r" by (intro IH) auto
    with S1 show ?thesis
      by (simp add: glob_stage_S1 star)
  next
    case (Q r)
    then have "escapeRegexMeta r = ?out r" by (intro IH) auto
    with Q show ?thesis
      by (simp add: glob_stage_Q quest)
  next
    case (Meta m r)
    then have "escapeRegexMeta r = ?out r" by (intro IH) auto
    with Meta show ?thesis
      by (simp add: glob_stage_Meta)
  next
    case (Ord c r)
    then have "escapeRegexMeta r = ?out r" by (intro IH) auto
    with Ord show ?thesis by (simp add: glob_stage_Ord)
  qed
qed

lemma no_star_slash: "\<not> startsWith y ''*'' \<Longrightarrow> \<not> startsWith y ''*/''"
  by (cases y) auto

lemma pass3:
  "plain_glob p \<Longrightarrow>
   replaceAll ''**/'' ''__GLOBSTAR_SLASH__'' (glob_stage ''**/'' ''**'' ''*'' ''?'' p)
     = glob_stage ''__GLOBSTAR_SLASH__'' ''**'' ''*'' ''?'' p"
proof (induction p rule: length_induct)
  case (1 p)
  let ?R = "replaceAll ''**/'' ''__GLOBSTAR_SLASH__''"
  let ?in = "glob_stage ''**/'' ''**'' ''*'' ''?''"
  let ?out = "glob_stage ''__GLOBSTAR_SLASH__'' ''**'' ''*'' ''?''"
  have IH: "?R (?in r) = ?out r" if "length r < length p" "plain_glob r" for r
    using 1 that by blast
  from 1(2) show ?case
  proof (cases p rule: glob_tokens)
    case Nil
    then show ?thesis by simp
  next
    case (SS r)
    then have "?R (?in r) = ?out r" by (intro IH) auto
    then show ?thesis
      unfolding SS(1) glob_stage_SS by simp
  next
    case (S2 r)
    then have ih: "?R (?in r) = ?out r" by (intro IH) auto
    from S2 have h1: "\<not> startsWith (?in r) ''/''" and h2: "\<not> startsWith (?in r) ''*/''"
      by (simp_all add: stage_head_no_slash stage_head_no_star no_star_slash)
    from ih h1 h2 S2 show ?thesis
      by (simp add: glob_stage_S2)
  next
    case (S1 r)
    then have ih: "?R (?in r) = ?out r" by (intro IH) auto
    from S1 have h2: "\<not> startsWith (?in r) ''*/''"
      by (simp add: stage_head_no_star no_star_slash)
    from ih h2 S1 show ?thesis
      by (simp add: glob_stage_S1)
  next
    case (Q r)
    then have ih: "?R (?in r) = ?out r" by (intro IH) auto
    with Q show ?thesis by (simp add: glob_stage_Q)
  next
    case (Meta m r)
    then have ih: "?R (?in r) = ?out r" by (intro IH) auto
    with Meta is_regex_meta_not_glob [of m] show ?thesis
      by (simp add: glob_stage_Meta backslash_def)
  next
    case (Ord c r)
    then have ih: "?R (?in r) = ?out r" by (intro IH) auto
    with Ord show ?thesis by (simp add: glob_stage_Ord)
  qed
qed

lemma pass4:
  "plain_glob p \<Longrightarrow>
   replaceAll ''**'' ''__GLOBSTAR__'' (glob_stage ''__GLOBSTAR_SLASH__'' ''**'' ''*'' ''?'' p)
     = glob_stage ''__GLOBSTAR_SLASH__'' ''__GLOBSTAR__'' ''*'' ''?'' p"
proof (induction p rule: length_induct)
  case (1 p)
  let ?R = "replaceAll ''**'' ''__GLOBSTAR__''"
  let ?in = "glob_stage ''__GLOBSTAR_SLASH__'' ''**'' ''*'' ''?''"
  let ?out = "glob_stage ''__GLOBSTAR_SLASH__'' ''__GLOBSTAR__'' ''*'' ''?''"
  have IH: "?R (?in r) = ?out r" if "length r < length p" "plain_glob r" for r
    using 1 that by blast
  from 1(2) show ?case
  proof (cases p rule: glob_tokens)
    case Nil
    then show ?thesis by simp
  next
    case (SS r)
    then have "?R (?in r) = ?out r" by (intro IH) auto
    then show ?thesis
      unfolding SS(1) glob_stage_SS by simp
  next
    case (S2 r)
    then have ih: "?R (?in r) = ?out r" by (intro IH) auto
    from ih S2 show ?thesis
      by (simp add: glob_stage_S2)
  next
    case (S1 r)
    then have ih: "?R (?in r) = ?out r" by (intro IH) auto
    from S1 have h2: "\<not> startsWith (?in r) ''*''"
      by (simp add: stage_head_no_star)
    from ih h2 S1 show ?thesis
      by (simp add: glob_stage_S1)
  next
    case (Q r)
    then have ih: "?R (?in r) = ?out r" by (intro IH) auto
    with Q show ?thesis by (simp add: glob_stage_Q)
  next
    case (Meta m r)
    then have ih: "?R (?in r) = ?out r" by (intro IH) auto
    with Meta is_regex_meta_not_glob [of m] show ?thesis
      by (simp add: glob_stage_Meta backslash_def)
  next
    case (Ord c r)
    then have ih: "?R (?in r) = ?out r" by (intro IH) auto
    with Ord show ?thesis by (simp add: glob_stage_Ord)
  qed
qed

lemma pass5:
  "plain_glob p \<Longrightarrow>
   replaceAll ''*'' ''[^/]*'' (glob_stage ''__GLOBSTAR_SLASH__'' ''__GLOBSTAR__'' ''*'' ''?'' p)
     = glob_stage ''__GLOBSTAR_SLASH__'' ''__GLOBSTAR__'' ''[^/]*'' ''?'' p"
proof (induction p rule: length_induct)
  case (1 p)
  let ?R = "replaceAll ''*'' ''[^/]*''"
  let ?in = "glob_stage ''__GLOBSTAR_SLASH__'' ''__GLOBSTAR__'' ''*'' ''?''"
  let ?out = "glob_stage ''__GLOBSTAR_SLASH__'' ''__GLOBSTAR__'' ''[^/]*'' ''?''"
  have IH: "?R (?in r) = ?out r" if "length r < length p" "plain_glob r" for r
    using 1 that by blast
  from 1(2) show ?case
  proof (cases p rule: glob_tokens)
    case Nil
    then show ?thesis by simp
  next
    case (SS r)
    then have "?R (?in r) = ?out r" by (intro IH) auto
    then show ?thesis
      unfolding SS(1) glob_stage_SS by simp
  next
    case (S2 r)
    then have ih: "?R (?in r) = ?out r" by (intro IH) auto
    from ih S2 show ?thesis
      by (simp add: glob_stage_S2)
  next
    case (S1 r)
    then have ih: "?R (?in r) = ?out r" by (intro IH) auto
    from ih S1 show ?thesis
      by (simp add: glob_stage_S1)
  next
    case (Q r)
    then have ih: "?R (?in r) = ?out r" by (intro IH) auto
    with Q show ?thesis by (simp add: glob_stage_Q)
  next
    case (Meta m r)
    then have ih: "?R (?in r) = ?out r" by (intro IH) auto
    with Meta is_regex_meta_not_glob [of m] show ?thesis
      by (simp add: glob_stage_Meta backslash_def)
  next
    case (Ord c r)
    then have ih: "?R (?in r) = ?out r" by (intro IH) auto
    with Ord show ?thesis by (simp add: glob_stage_Ord)
  qed
qed

lemma pass6:
  "plain_glob p \<Longrightarrow>
   replaceAll ''?'' ''[^/]'' (glob_stage ''__GLOBSTAR_SLASH__'' ''__GLOBSTAR__'' ''[^/]*'' ''?'' p)
     = glob_stage ''__GLOBSTAR_SLASH__'' ''__GLOBSTAR__'' ''[^/]*'' ''[^/]'' p"
proof (induction p rule: length_induct)
  case (1 p)
  let ?R = "replaceAll ''?'' ''[^/]''"
  let ?in = "glob_stage ''__GLOBSTAR_SLASH__'' ''__GLOBSTAR__'' ''[^/]*'' ''?''"
  let ?out = "glob_stage ''__GLOBSTAR_SLASH__'' ''__GLOBSTAR__'' ''[^/]*'' ''[^/]''"
  have IH: "?R (?in r) = ?out r" if "length r < length p" "plain_glob r" for r
    using 1 that by blast
  from 1(2) show ?case
  proof (cases p rule: glob_tokens)
    case Nil
    then show ?thesis by simp
  next
    case (SS r)
    then have "?R (?in r) = ?out r" by (intro IH) auto
    then show ?thesis
      unfolding SS(1) glob_stage_SS by simp
  next
    case (S2 r)
    then have ih: "?R (?in r) = ?out r" by (intro IH) auto
    from ih S2 show ?thesis
      by (simp add: glob_stage_S2)
  next
    case (S1 r)
    then have ih: "?R (?in r) = ?out r" by (intro IH) auto
    from ih S1 show ?thesis
      by (simp add: glob_stage_S1)
  next
    case (Q r)
    then have ih: "?R (?in r) = ?out r" by (intro IH) auto
    with Q show ?thesis by (simp add: glob_stage_Q)
  next
    case (Meta m r)
    then have ih: "?R (?in r) = ?out r" by (intro IH) auto
    with Meta is_regex_meta_not_glob [of m] show ?thesis
      by (simp add: glob_stage_Meta backslash_def)
  next
    case (Ord c r)
    then have ih: "?R (?in r) = ?out r" by (intro IH) auto
    with Ord show ?thesis by (simp add: glob_stage_Ord)
  qed
qed

lemma startsWith_longer: "\<not> startsWith y a \<Longrightarrow> \<not> startsWith y (a @ b)"
  by (induction y a rule: startsWith.induct) auto

lemma pass7:
  "plain_glob p \<Longrightarrow>
   replaceAll ''__GLOBSTAR_SLASH__'' ''(.*/)?''
     (glob_stage ''__GLOBSTAR_SLASH__'' ''__GLOBSTAR__'' ''[^/]*'' ''[^/]'' p)
     = glob_stage ''(.*/)?'' ''__GLOBSTAR__'' ''[^/]*'' ''[^/]'' p"
proof (induction p rule: length_induct)
  case (1 p)
  let ?R = "replaceAll ''__GLOBSTAR_SLASH__'' ''(.*/)?''"
  let ?in = "glob_stage ''__GLOBSTAR_SLASH__'' ''__GLOBSTAR__'' ''[^/]*'' ''[^/]''"
  let ?out = "glob_stage ''(.*/)?'' ''__GLOBSTAR__'' ''[^/]*'' ''[^/]''"
  have IH: "?R (?in r) = ?out r" if "length r < length p" "plain_glob r" for r
    using 1 that by blast
  from 1(2) show ?case
  proof (cases p rule: glob_tokens)
    case Nil
    then show ?thesis by simp
  next
    case (SS r)
    then have "?R (?in r) = ?out r" by (intro IH) auto
    then show ?thesis
      unfolding SS(1) glob_stage_SS by simp
  next
    case (S2 r)
    then have ih: "?R (?in r) = ?out r" by (intro IH) auto
    from S2 have "\<not> startsWith (?in r) (''GLOBSTAR'' @ ''_S'')"
      by (intro stage_head_not_placeholder_tail) auto
    then have "\<not> startsWith (?in r) ((''GLOBSTAR'' @ ''_S'') @ ''LASH__'')"
      by (rule startsWith_longer)
    then have h1: "\<not> startsWith (?in r) ''GLOBSTAR_SLASH__''"
      by simp
    from S2 have "\<not> startsWith (?in r) ''_''"
      by (intro stage_head_no_underscore) (auto simp: plain_glob_def)
    then have "\<not> startsWith (?in r) (''_'' @ ''GLOBSTAR_SLASH__'')"
      by (rule startsWith_longer)
    then have h2: "\<not> startsWith (?in r) ''_GLOBSTAR_SLASH__''"
      by simp
    from ih h1 h2 S2 show ?thesis
      by (simp add: glob_stage_S2)
  next
    case (S1 r)
    then have ih: "?R (?in r) = ?out r" by (intro IH) auto
    from ih S1 show ?thesis
      by (simp add: glob_stage_S1)
  next
    case (Q r)
    then have ih: "?R (?in r) = ?out r" by (intro IH) auto
    with Q show ?thesis by (simp add: glob_stage_Q)
  next
    case (Meta m r)
    then have ih: "?R (?in r) = ?out r" by (intro IH) auto
    with Meta is_regex_meta_not_glob [of m] show ?thesis
      by (simp add: glob_stage_Meta backslash_def)
  next
    case (Ord c r)
    then have ih: "?R (?in r) = ?out r" by (intro IH) auto
    with Ord show ?thesis by (simp add: glob_stage_Ord)
  qed
qed

lemma pass8:
  "plain_glob p \<Longrightarrow>
   replaceAll ''__GLOBSTAR__'' ''.*'' (glob_stage ''(.*/)?'' ''__GLOBSTAR__'' ''[^/]*'' ''[^/]'' p)
     = glob_stage ''(.*/)?'' ''.*'' ''[^/]*'' ''[^/]'' p"
proof (induction p rule: length_induct)
  case (1 p)
  let ?R = "replaceAll ''__GLOBSTAR__'' ''.*''"
  let ?in = "glob_stage ''(.*/)?'' ''__GLOBSTAR__'' ''[^/]*'' ''[^/]''"
  let ?out = "glob_stage ''(.*/)?'' ''.*'' ''[^/]*'' ''[^/]''"
  have IH: "?R (?in r) = ?out r" if "length r < length p" "plain_glob r" for r
    using 1 that by blast
  from 1(2) show ?case
  proof (cases p rule: glob_tokens)
    case Nil
    then show ?thesis by simp
  next
    case (SS r)
    then have "?R (?in r) = ?out r" by (intro IH) auto
    then show ?thesis
      unfolding SS(1) glob_stage_SS by simp
  next
    case (S2 r)
    then have ih: "?R (?in r) = ?out r" by (intro IH) auto
    from ih S2 show ?thesis
      by (simp add: glob_stage_S2)
  next
    case (S1 r)
    then have ih: "?R (?in r) = ?out r" by (intro IH) auto
    from ih S1 show ?thesis
      by (simp add: glob_stage_S1)
  next
    case (Q r)
    then have ih: "?R (?in r) = ?out r" by (intro IH) auto
    with Q show ?thesis by (simp add: glob_stage_Q)
  next
    case (Meta m r)
    then have ih: "?R (?in r) = ?out r" by (intro IH) auto
    with Meta is_regex_meta_not_glob [of m] show ?thesis
      by (simp add: glob_stage_Meta backslash_def)
  next
    case (Ord c r)
    then have ih: "?R (?in r) = ?out r" by (intro IH) auto
    with Ord show ?thesis by (simp add: glob_stage_Ord)
  qed
qed

lemma set_escapeRegexMeta: "set cs \<subseteq> set (escapeRegexMeta cs)"
  by (induction cs) auto

lemma escapeUnclosedBracket_closed:
  "brackets_closed p \<Longrightarrow> escapeUnclosedBracket (escapeRegexMeta p) = escapeRegexMeta p"
proof (induction p)
  case Nil
  then show ?case by simp
next
  case (Cons c cs)
  then have ih: "escapeUnclosedBracket (escapeRegexMeta cs) = escapeRegexMeta cs"
    by simp
  show ?case
  proof (cases "is_regex_meta c")
    case True
    then have "c \<noteq> CHR ''[''"
      by (auto simp: is_regex_meta_def backslash_def)
    with True ih show ?thesis
      by (simp add: backslash_def)
  next
    case False
    show ?thesis
    proof (cases "c = CHR ''[''")
      case True
      with Cons.prems have "CHR '']'' \<in> set cs" by simp
      with set_escapeRegexMeta [of cs] have "CHR '']'' \<in> set (escapeRegexMeta cs)"
        by blast
      with False ih show ?thesis by simp
    next
      case False
      with \<open>\<not> is_regex_meta c\<close> ih show ?thesis by simp
    qed
  qed
qed

text \<open>
  On a pattern without underscore, without three stars in a row and without an unclosed
  bracket, the chain of replacements is the translation of the specification.
\<close>

lemma globToRegex_plain:
  assumes "plain_glob p" and "brackets_closed p"
  shows "globToRegex p = spec_globToRegex p"
proof -
  have "escapeUnclosedBracket (escapeRegexMeta p) = escapeRegexMeta p"
    using assms(2) by (rule escapeUnclosedBracket_closed)
  also have "\<dots> = glob_stage ''**/'' ''**'' ''*'' ''?'' p"
    using assms(1) by (rule stage1)
  finally have "escapeUnclosedBracket (escapeRegexMeta p) = glob_stage ''**/'' ''**'' ''*'' ''?'' p" .
  then show ?thesis
    unfolding globToRegex_def spec_globToRegex_def spec_glob_body_stage
    using assms(1) by (simp add: pass3 pass4 pass5 pass6 pass7 pass8)
qed

text \<open>
  C7. The regex of a glob pattern is the pattern with the regex metacharacters of its
  non-glob parts escaped and \<^verbatim>\<open>**/\<close>, \<^verbatim>\<open>**\<close>, \<^verbatim>\<open>*\<close>, \<^verbatim>\<open>?\<close> rewritten, between \<^verbatim>\<open>^\<close> and
  \<^verbatim>\<open>$\<close>. The source marks the two globstar forms with the texts \<^verbatim>\<open>__GLOBSTAR_SLASH__\<close> and
  \<^verbatim>\<open>__GLOBSTAR__\<close> and rewrites these marks at the end; a pattern that holds such a text in
  a file name has it rewritten as well. On \<^verbatim>\<open>/tmp/__GLOBSTAR__/*.txt\<close> the directory name
  becomes \<^verbatim>\<open>.*\<close> in the regex of the rule, where the translation of the specification
  keeps it.
\<close>

theorem globToRegex_placeholder_collision:
  "globToRegex ''/tmp/__GLOBSTAR__/*.txt'' = ''^/tmp/.*/[^/]*'' @ [backslash] @ ''.txt$''
   \<and> spec_globToRegex ''/tmp/__GLOBSTAR__/*.txt''
       = ''^/tmp/__GLOBSTAR__/[^/]*'' @ [backslash] @ ''.txt$''
   \<and> createRuleWithGlobSupport no_symlinks_env ''/tmp/__GLOBSTAR__/*.txt'' ''file-read*'' Deny
         ''TAG''
       = [''(deny file-read*'',
          ''  (regex '' @ escapePath (''^/tmp/.*/[^/]*'' @ [backslash] @ ''.txt$'') @ '')'',
          withMessage ''TAG'']"
proof -
  have code: "globToRegex ''/tmp/__GLOBSTAR__/*.txt'' = ''^/tmp/.*/[^/]*'' @ [backslash] @ ''.txt$''"
    by code_simp
  have spec: "spec_globToRegex ''/tmp/__GLOBSTAR__/*.txt''
      = ''^/tmp/__GLOBSTAR__/[^/]*'' @ [backslash] @ ''.txt$''"
    by code_simp
  have norm: "normalizePathForSandbox no_symlinks_env ''/tmp/__GLOBSTAR__/*.txt''
      = ''/tmp/__GLOBSTAR__/*.txt''"
    by code_simp
  have glob: "containsGlobChars ''/tmp/__GLOBSTAR__/*.txt''"
    by (simp add: containsGlobChars_def is_glob_char_def)
  have rule: "createRuleWithGlobSupport no_symlinks_env ''/tmp/__GLOBSTAR__/*.txt'' ''file-read*''
      Deny ''TAG''
      = [''(deny file-read*'',
         ''  (regex '' @ escapePath (''^/tmp/.*/[^/]*'' @ [backslash] @ ''.txt$'') @ '')'',
         withMessage ''TAG'']"
    unfolding createRuleWithGlobSupport_kinds norm code [symmetric]
    using glob by simp
  from code spec rule show ?thesis
    by (intro conjI)
qed

section \<open>The wrapped command on Linux\<close>

lemma length_escapeChars: "length s \<le> length (escapeChars cls s)"
  by (induction s) auto

lemma length_quoteDefault: "length s \<le> length (quoteDefault s)"
  by (induction s rule: quoteDefault.induct) auto

lemma length_quoteArg: "length s \<le> length (quoteArg s)"
proof -
  have "length s \<le> length (quoteSingle s)"
    unfolding quoteSingle_def by (simp add: le_SucI length_escapeChars)
  moreover have "length s \<le> length (quoteDouble s)"
    unfolding quoteDouble_def by (simp add: le_SucI length_escapeChars)
  moreover note length_quoteDefault [of s]
  ultimately show ?thesis
    by (simp add: quoteArg_def quoteEmpty_def)
qed

lemma join_with_Cons: "ys \<noteq> [] \<Longrightarrow> join_with sep (x # ys) = x @ sep @ join_with sep ys"
  by (cases ys) auto

lemma length_join_with_last: "length x \<le> length (join_with sep (xs @ [x]))"
proof (induction xs)
  case Nil
  then show ?case by simp
next
  case (Cons y ys)
  have "join_with sep (y # (ys @ [x])) = y @ sep @ join_with sep (ys @ [x])"
    by (rule join_with_Cons) simp
  with Cons show ?case by simp
qed

lemma length_shellquote_single: "length s \<le> length (shellquote [s])"
  by (simp add: shellquote_def length_quoteArg)

lemma length_shellquote_last: "length s \<le> length (shellquote (xs @ [s]))"
proof -
  have "length (quoteArg s) \<le> length (join_with '' '' (map quoteArg xs @ [quoteArg s]))"
    by (rule length_join_with_last)
  with length_quoteArg [of s] show ?thesis
    by (simp add: shellquote_def)
qed

lemma quoteArg_bwrap_words:
  "quoteArg ''bwrap'' = ''bwrap''"
  "quoteArg ''--new-session'' = ''--new-session''"
  "quoteArg ''--die-with-parent'' = ''--die-with-parent''"
  by (simp_all add: quoteArg_def is_js_space_def is_shell_special_def is_alpha_def backslash_def)

lemma shellquote_bwrap:
  assumes "rest \<noteq> []"
  shows "shellquote (''bwrap'' # ''--new-session'' # ''--die-with-parent'' # rest)
         = ''bwrap --new-session --die-with-parent '' @ shellquote rest"
proof -
  from assms have ne: "map quoteArg rest \<noteq> []" by simp
  from assms show ?thesis
    unfolding shellquote_def list.map quoteArg_bwrap_words
    by (simp add: join_with_Cons ne)
qed

lemma buildSandboxCommand_length:
  assumes "buildSandboxCommand env h s cmd filterPath shell = Inr inner"
  shows "length cmd \<le> length inner"
proof -
  have script: "length x \<le> length (shell @ '' -c '' @ shellquote [join_with [CHR 0x0A]
      (socatCommands h s @ [x])])" for x
  proof -
    have "length x \<le> length (join_with [CHR 0x0A] (socatCommands h s @ [x]))"
      by (rule length_join_with_last)
    also have "\<dots> \<le> length (shellquote [join_with [CHR 0x0A] (socatCommands h s @ [x])])"
      by (rule length_shellquote_single)
    finally show ?thesis by simp
  qed
  have a: "length cmd \<le> length (shellquote [b, f, shell, ''-c'', cmd])" for b f
    using length_shellquote_last [of cmd "[b, f, shell, ''-c'']"] by simp
  have e: "length cmd \<le> length (''eval '' @ shellquote [cmd])"
    using length_shellquote_single [of cmd] by simp
  from assms consider b f where "inner = shell @ '' -c '' @ shellquote [join_with [CHR 0x0A]
        (socatCommands h s @ [shellquote [b, f, shell, ''-c'', cmd]])]"
    | "inner = shell @ '' -c '' @ shellquote [join_with [CHR 0x0A]
        (socatCommands h s @ [''eval '' @ shellquote [cmd]])]"
    by (auto simp: buildSandboxCommand_def Let_def split: option.splits)
  then show ?thesis
  proof cases
    case 1
    with a [of b f] script [of "shellquote [b, f, shell, ''-c'', cmd]"] show ?thesis
      by simp
  next
    case 2
    with e script [of "''eval '' @ shellquote [cmd]"] show ?thesis
      by simp
  qed
qed

lemma buildFinalCommand_shape:
  assumes "buildFinalCommand env needsNet hs ss cmd filterPath shell bwrapArgs = Inr allArgs"
  shows "\<exists>x. allArgs = bwrapArgs @ [''--'', shell, ''-c''] @ [x] \<and> length cmd \<le> length x"
proof -
  have a: "length cmd \<le> length (shellquote [b, f, shell, ''-c'', cmd])" for b f
    using length_shellquote_last [of cmd "[b, f, shell, ''-c'']"] by simp
  from assms show ?thesis
    unfolding buildFinalCommand_def Let_def
    by (auto split: option.splits sum.splits prod.splits if_splits
        dest: buildSandboxCommand_length simp: a)
qed

lemma addProxyEnvVars_shape:
  "addProxyEnvVars env h s hp sp args = Inr out \<Longrightarrow> \<exists>more. out = args @ more"
  by (auto simp: addProxyEnvVars_def split: if_splits)

lemma handleNetworkRestriction_shape:
  assumes "handleNetworkRestriction env needsNet hs ss hp sp args = Inr out"
  shows "\<exists>more. out = args @ more"
proof (cases needsNet)
  case False
  with assms show ?thesis
    by (simp add: handleNetworkRestriction_def)
next
  case True
  show ?thesis
  proof (cases "\<exists>h s. present hs = Some h \<and> present ss = Some s")
    case True
    then obtain h s where "present hs = Some h" "present ss = Some s"
      by blast
    with assms \<open>needsNet\<close> have "addProxyEnvVars env h s hp sp (args @ [''--unshare-net'']) = Inr out"
      by (simp add: handleNetworkRestriction_def)
    then obtain more where "out = (args @ [''--unshare-net'']) @ more"
      using addProxyEnvVars_shape by blast
    then have "out = args @ (''--unshare-net'' # more)"
      by simp
    then show ?thesis ..
  next
    case False
    with assms \<open>needsNet\<close> have "out = args @ [''--unshare-net'']"
      by (auto simp: handleNetworkRestriction_def split: option.splits)
    then show ?thesis ..
  qed
qed

lemma wrap_slow_path:
  assumes slow: "lp_needsNetworkRestriction params \<or> hasReadRestrictions params
      \<or> hasWriteRestrictions params"
    and res: "wrapCommandWithSandboxLinux env params = Inr w"
  shows "startsWith w ''bwrap --new-session --die-with-parent ''
         \<and> length (lp_command params) < length w"
proof -
  from slow res obtain netArgs fsArgs shell allArgs where
    net: "handleNetworkRestriction env (lp_needsNetworkRestriction params)
            (lp_httpSocketPath params) (lp_socksSocketPath params)
            (lp_httpProxyPort params) (lp_socksProxyPort params)
            [''--new-session'', ''--die-with-parent''] = Inr netArgs"
    and fin: "buildFinalCommand env (lp_needsNetworkRestriction params)
            (lp_httpSocketPath params) (lp_socksSocketPath params) (lp_command params)
            (handleSeccomp env (nullish_default (lp_allowAllUnixSockets params) False)) shell
            (netArgs @ fsArgs @ [''--dev'', ''/dev'', ''--unshare-pid'']
              @ (if nullish_default (lp_enableWeakerNestedSandbox params) False
                 then [] else [''--proc'', ''/proc''])) = Inr allArgs"
    and w: "w = shellquote (''bwrap'' # allArgs)"
    unfolding wrapCommandWithSandboxLinux_def Let_def
    by (auto split: sum.splits option.splits if_splits)
  from handleNetworkRestriction_shape [OF net] obtain more where
    netArgs: "netArgs = [''--new-session'', ''--die-with-parent''] @ more"
    by blast
  from buildFinalCommand_shape [OF fin] obtain x where
    allArgs: "allArgs = (netArgs @ fsArgs @ [''--dev'', ''/dev'', ''--unshare-pid'']
              @ (if nullish_default (lp_enableWeakerNestedSandbox params) False
                 then [] else [''--proc'', ''/proc''])) @ [''--'', shell, ''-c''] @ [x]"
    and x: "length (lp_command params) \<le> length x"
    by blast
  define rest where "rest = more @ fsArgs @ [''--dev'', ''/dev'', ''--unshare-pid'']
              @ (if nullish_default (lp_enableWeakerNestedSandbox params) False
                 then [] else [''--proc'', ''/proc'']) @ [''--'', shell, ''-c'']"
  have all: "allArgs = ''--new-session'' # ''--die-with-parent'' # (rest @ [x])"
    unfolding allArgs netArgs rest_def by simp
  have w': "w = ''bwrap --new-session --die-with-parent '' @ shellquote (rest @ [x])"
    unfolding w all by (rule shellquote_bwrap) simp
  have "length x \<le> length (shellquote (rest @ [x]))"
    by (rule length_shellquote_last)
  with x have "length (lp_command params) < length w"
    unfolding w' by simp
  moreover have "startsWith w ''bwrap --new-session --die-with-parent ''"
    unfolding w' by (rule startsWith_append)
  ultimately show ?thesis by simp
qed

lemma wrap_returns:
  assumes fs: "le_filesystemArgs env (lp_readConfig params) (lp_writeConfig params) \<noteq> None"
    and sh: "le_which env (case present (lp_binShell params) of None \<Rightarrow> ''bash'' | Some b \<Rightarrow> b)
        \<noteq> None"
    and ex: "\<forall>p. le_existsSync env p"
    and ap: "present (le_applySeccompBinary env) \<noteq> None"
  shows "\<exists>w. wrapCommandWithSandboxLinux env params = Inr w"
proof -
  from ex have net: "\<exists>netArgs. handleNetworkRestriction env needsNet hs ss hp sp args = Inr netArgs"
    for needsNet hs ss hp sp args
    by (auto simp: handleNetworkRestriction_def addProxyEnvVars_def split: option.splits)
  from sh obtain shell where shell: "getShell env (lp_binShell params) = Inr shell"
    by (auto simp: getShell_def Let_def)
  from ap have inner: "\<exists>x. buildSandboxCommand env h s cmd fp shell = Inr x" for h s cmd fp
    by (auto simp: buildSandboxCommand_def Let_def split: option.splits)
  have fin: "\<exists>allArgs. buildFinalCommand env needsNet hs ss cmd fp shell args = Inr allArgs"
    for needsNet hs ss cmd fp args
  proof (cases "\<exists>h s. (if needsNet then (present hs, present ss) else (None, None)) = (Some h, Some s)")
    case True
    then obtain h s where
      hs: "(if needsNet then (present hs, present ss) else (None, None)) = (Some h, Some s)"
      by blast
    from inner [of h s cmd fp] obtain x where "buildSandboxCommand env h s cmd fp shell = Inr x"
      by blast
    with hs show ?thesis
      by (simp add: buildFinalCommand_def Let_def)
  next
    case False
    with ap show ?thesis
      by (auto simp: buildFinalCommand_def Let_def split: option.splits prod.splits)
  qed
  from fs obtain fsArgs where
    fsArgs: "le_filesystemArgs env (lp_readConfig params) (lp_writeConfig params) = Some fsArgs"
    by blast
  obtain netArgs where netArgs: "handleNetworkRestriction env (lp_needsNetworkRestriction params)
      (lp_httpSocketPath params) (lp_socksSocketPath params)
      (lp_httpProxyPort params) (lp_socksProxyPort params)
      [''--new-session'', ''--die-with-parent''] = Inr netArgs"
    using net by blast
  obtain allArgs where "buildFinalCommand env (lp_needsNetworkRestriction params)
      (lp_httpSocketPath params) (lp_socksSocketPath params) (lp_command params)
      (handleSeccomp env (nullish_default (lp_allowAllUnixSockets params) False)) shell
      (netArgs @ fsArgs @ [''--dev'', ''/dev'', ''--unshare-pid'']
        @ (if nullish_default (lp_enableWeakerNestedSandbox params) False
           then [] else [''--proc'', ''/proc''])) = Inr allArgs"
    using fin by blast
  with shell fsArgs netArgs show ?thesis
    by (simp add: wrapCommandWithSandboxLinux_def Let_def)
qed

text \<open>
  C6. \<open>wrapCommandWithSandboxLinux\<close> returns the command unchanged exactly when network
  restriction is not needed, the read config is absent or has an empty \<^verbatim>\<open>denyOnly\<close> list, and
  the write config is absent. In every other case a returned string is a \<^verbatim>\<open>bwrap\<close>
  invocation other than the command, and the wrapper does return one when the file-system
  arguments are built, the shell is found, the bridge sockets exist and the apply-seccomp
  binary is there.
\<close>

theorem wrapCommandWithSandboxLinux_unchanged_iff:
  "(wrapCommandWithSandboxLinux env params = Inr (lp_command params))
     = (\<not> lp_needsNetworkRestriction params
        \<and> (lp_readConfig params = None \<or> map_option denyOnly (lp_readConfig params) = Some [])
        \<and> lp_writeConfig params = None)
   \<and> ((lp_needsNetworkRestriction params
         \<or> (lp_readConfig params \<noteq> None \<and> map_option denyOnly (lp_readConfig params) \<noteq> Some [])
         \<or> lp_writeConfig params \<noteq> None)
        \<and> wrapCommandWithSandboxLinux env params = Inr w
        \<longrightarrow> startsWith w ''bwrap --new-session --die-with-parent '' \<and> w \<noteq> lp_command params)
   \<and> (le_filesystemArgs env (lp_readConfig params) (lp_writeConfig params) \<noteq> None
        \<and> le_which env (case present (lp_binShell params) of None \<Rightarrow> ''bash'' | Some b \<Rightarrow> b)
            \<noteq> None
        \<and> (\<forall>p. le_existsSync env p)
        \<and> present (le_applySeccompBinary env) \<noteq> None
        \<longrightarrow> (\<exists>w'. wrapCommandWithSandboxLinux env params = Inr w'))"
proof -
  let ?fast = "\<not> lp_needsNetworkRestriction params
      \<and> (lp_readConfig params = None \<or> map_option denyOnly (lp_readConfig params) = Some [])
      \<and> lp_writeConfig params = None"
  have fast_iff: "?fast = (\<not> lp_needsNetworkRestriction params \<and> \<not> hasReadRestrictions params
      \<and> \<not> hasWriteRestrictions params)"
    by (auto simp: hasReadRestrictions_def hasWriteRestrictions_def split: option.splits)
  have fast: "wrapCommandWithSandboxLinux env params = Inr (lp_command params)" if ?fast
    using that unfolding fast_iff by (simp add: wrapCommandWithSandboxLinux_def)
  have slow: "startsWith v ''bwrap --new-session --die-with-parent ''
      \<and> v \<noteq> lp_command params"
    if "\<not> ?fast" and "wrapCommandWithSandboxLinux env params = Inr v" for v
  proof -
    from that(1) have "lp_needsNetworkRestriction params \<or> hasReadRestrictions params
        \<or> hasWriteRestrictions params"
      unfolding fast_iff by blast
    from wrap_slow_path [OF this that(2)] show ?thesis
      by auto
  qed
  have iff: "(wrapCommandWithSandboxLinux env params = Inr (lp_command params)) = ?fast"
    using fast slow by blast
  have slow': "startsWith w ''bwrap --new-session --die-with-parent '' \<and> w \<noteq> lp_command params"
    if "lp_needsNetworkRestriction params
         \<or> (lp_readConfig params \<noteq> None \<and> map_option denyOnly (lp_readConfig params) \<noteq> Some [])
         \<or> lp_writeConfig params \<noteq> None"
      and "wrapCommandWithSandboxLinux env params = Inr w"
  proof -
    from that(1) have "\<not> ?fast" by blast
    then show ?thesis using that(2) by (rule slow)
  qed
  from iff slow' wrap_returns [of env params] show ?thesis
    by blast
qed

theorem wrapCommandWithSandboxLinux_unchanged_iff_witness:
  "wrapCommandWithSandboxLinux plain_linux_env echo_params = Inr ''echo hello''
   \<and> (\<exists>w. wrapCommandWithSandboxLinux bridged_linux_env bridged_params = Inr w
          \<and> startsWith w ''bwrap --new-session --die-with-parent ''
          \<and> w \<noteq> ''echo hello'')"
proof -
  have c1: "lp_command echo_params = ''echo hello''"
    and c2: "lp_command bridged_params = ''echo hello''"
    by (simp_all add: echo_params_def bridged_params_def)
  have fast: "\<not> lp_needsNetworkRestriction echo_params
      \<and> (lp_readConfig echo_params = None
          \<or> map_option denyOnly (lp_readConfig echo_params) = Some [])
      \<and> lp_writeConfig echo_params = None"
    by (simp add: echo_params_def)
  have 1: "wrapCommandWithSandboxLinux plain_linux_env echo_params = Inr ''echo hello''"
    using wrapCommandWithSandboxLinux_unchanged_iff [of plain_linux_env echo_params,
        THEN conjunct1, THEN iffD2, OF fast]
    unfolding c1 .
  have slow: "lp_needsNetworkRestriction bridged_params
      \<or> (lp_readConfig bridged_params \<noteq> None
          \<and> map_option denyOnly (lp_readConfig bridged_params) \<noteq> Some [])
      \<or> lp_writeConfig bridged_params \<noteq> None"
    by (simp add: bridged_params_def)
  have ok: "le_filesystemArgs bridged_linux_env (lp_readConfig bridged_params)
        (lp_writeConfig bridged_params) \<noteq> None
      \<and> le_which bridged_linux_env
          (case present (lp_binShell bridged_params) of None \<Rightarrow> ''bash'' | Some b \<Rightarrow> b) \<noteq> None
      \<and> (\<forall>p. le_existsSync bridged_linux_env p)
      \<and> present (le_applySeccompBinary bridged_linux_env) \<noteq> None"
    by (simp add: bridged_linux_env_def bridged_params_def present_def)
  from wrapCommandWithSandboxLinux_unchanged_iff [of bridged_linux_env bridged_params,
      THEN conjunct2, THEN conjunct2, THEN mp, OF ok]
  obtain w where w: "wrapCommandWithSandboxLinux bridged_linux_env bridged_params = Inr w"
    by blast
  from wrapCommandWithSandboxLinux_unchanged_iff [of bridged_linux_env bridged_params w,
      THEN conjunct2, THEN conjunct1, THEN mp, OF conjI, OF slow w]
  have 2: "startsWith w ''bwrap --new-session --die-with-parent '' \<and> w \<noteq> ''echo hello''"
    unfolding c2 .
  from w 2 have "\<exists>w. wrapCommandWithSandboxLinux bridged_linux_env bridged_params = Inr w
          \<and> startsWith w ''bwrap --new-session --die-with-parent ''
          \<and> w \<noteq> ''echo hello''"
    by blast
  with 1 show ?thesis
    by (rule conjI)
qed

end
